theory Spec2Isabelle
  imports Main
begin

section \<open>Python values, dictionaries and exceptions\<close>

text \<open>
  The server receives its arguments as a \<^verbatim>\<open>dict[str, Any]\<close> decoded from JSON and the
  provider returns a list of dictionaries. The embedding covers the scalar values
  \<^verbatim>\<open>None\<close>, booleans, integers and strings. A character of a \<^typ>\<open>string\<close> stands for one
  code point below 256.
\<close>

datatype pyval = PNone | PBool bool | PInt int | PStr string

type_synonym pydict = "string \<rightharpoonup> pyval"

text \<open>
  Exceptions, each with the text that \<^verbatim>\<open>str\<close> gives for it. \<open>Raised m\<close> is any exception
  of the provider whose text is \<open>m\<close>.
\<close>

datatype exn =
    KeyError string
  | AttributeError string
  | TypeError string
  | ValueError string
  | Raised string

fun exn_str :: "exn \<Rightarrow> string" where
  "exn_str (KeyError m) = m"
| "exn_str (AttributeError m) = m"
| "exn_str (TypeError m) = m"
| "exn_str (ValueError m) = m"
| "exn_str (Raised m) = m"

definition squote :: "string \<Rightarrow> string" where
  "squote s = CHR 0x27 # s @ [CHR 0x27]"

text \<open>
  \<^verbatim>\<open>arguments["query"]\<close> on a mapping without that key raises \<^verbatim>\<open>KeyError('query')\<close>, whose
  text is the repr of the key: the word in single quotes.
\<close>

definition missing_query :: exn where
  "missing_query = KeyError (squote ''query'')"

fun type_name :: "pyval \<Rightarrow> string" where
  "type_name PNone = ''NoneType''"
| "type_name (PBool b) = ''bool''"
| "type_name (PInt i) = ''int''"
| "type_name (PStr s) = ''str''"

definition no_attribute :: "pyval \<Rightarrow> string \<Rightarrow> exn" where
  "no_attribute v a =
     AttributeError (squote (type_name v) @ '' object has no attribute '' @ squote a)"

definition not_subscriptable :: "pyval \<Rightarrow> exn" where
  "not_subscriptable v = TypeError (squote (type_name v) @ '' object is not subscriptable'')"

text \<open>Truth value of an object, as \<^verbatim>\<open>if x:\<close> tests it.\<close>

fun truthy :: "pyval \<Rightarrow> bool" where
  "truthy PNone = False"
| "truthy (PBool b) = b"
| "truthy (PInt i) = (i \<noteq> 0)"
| "truthy (PStr s) = (s \<noteq> [])"

text \<open>\<^verbatim>\<open>d.get(k, default)\<close>\<close>

definition dict_get :: "pydict \<Rightarrow> string \<Rightarrow> pyval \<Rightarrow> pyval" where
  "dict_get d k dflt = (case d k of None \<Rightarrow> dflt | Some v \<Rightarrow> v)"

subsection \<open>Printing\<close>

definition digit_char :: "nat \<Rightarrow> char" where
  "digit_char d = ''0123456789'' ! d"

fun string_of_nat :: "nat \<Rightarrow> string" where
  "string_of_nat n =
     (if n < 10 then [digit_char n] else string_of_nat (n div 10) @ [digit_char (n mod 10)])"

declare string_of_nat.simps [simp del]

definition string_of_int :: "int \<Rightarrow> string" where
  "string_of_int i = (if i < 0 then CHR ''-'' # string_of_nat (nat (- i)) else string_of_nat (nat i))"

text \<open>The text of a value, where it has one.\<close>

fun str_text :: "pyval \<Rightarrow> string" where
  "str_text PNone = ''None''"
| "str_text (PBool b) = (if b then ''True'' else ''False'')"
| "str_text (PInt i) = string_of_int i"
| "str_text (PStr s) = s"

text \<open>
  \<^verbatim>\<open>str(v)\<close>, which is what an f-string field \<^verbatim>\<open>{v}\<close> inserts. CPython refuses to print
  an integer of more than 4300 digits (the default of \<^verbatim>\<open>sys.int_max_str_digits\<close>), that is
  one whose absolute value is at least \<open>10 ^ 4300\<close>, with a \<^verbatim>\<open>ValueError\<close>.
\<close>

definition max_str_digits :: nat where
  "max_str_digits = 4300"

definition too_long :: "pyval \<Rightarrow> bool" where
  "too_long v = (case v of PInt i \<Rightarrow> 10 ^ max_str_digits \<le> \<bar>i\<bar> | _ \<Rightarrow> False)"

definition digits_exceeded :: exn where
  "digits_exceeded =
     ValueError (''Exceeds the limit (4300 digits) for integer string conversion; ''
                 @ ''use sys.set_int_max_str_digits() to increase the limit'')"

definition py_str :: "pyval \<Rightarrow> exn + string" where
  "py_str v = (if too_long v then Inl digits_exceeded else Inr (str_text v))"

text \<open>
  An f-string is a sequence of literal pieces and of replacement fields. The fields are
  printed from left to right, and the first one that cannot be printed raises.
\<close>

datatype part = Lit string | Fld pyval

fun fstring :: "part list \<Rightarrow> exn + string" where
  "fstring [] = Inr []"
| "fstring (Lit s # ps) = (case fstring ps of Inl e \<Rightarrow> Inl e | Inr t \<Rightarrow> Inr (s @ t))"
| "fstring (Fld v # ps) =
     (case py_str v of
        Inl e \<Rightarrow> Inl e
      | Inr s \<Rightarrow> (case fstring ps of Inl e \<Rightarrow> Inl e | Inr t \<Rightarrow> Inr (s @ t)))"

text \<open>
  \<^verbatim>\<open>logger.info(f"...")\<close>: the line is built before it is handed to the logger, so a field
  that cannot be printed raises here. The line itself is no output of the server.
\<close>

definition logger_info :: "part list \<Rightarrow> exn + unit" where
  "logger_info ps = (case fstring ps of Inl e \<Rightarrow> Inl e | Inr line \<Rightarrow> Inr ())"

subsection \<open>String operations\<close>

definition startswith :: "string \<Rightarrow> string \<Rightarrow> bool" where
  "startswith s p = (take (length p) s = p)"

text \<open>
  \<^verbatim>\<open>s.strip()\<close> removes the characters of a class from both ends. Without an argument
  the class is \<^verbatim>\<open>str.isspace\<close>; among the code points below 256 these are
  9 to 13, 28 to 32, 133 and 160.
\<close>

definition whitespace :: "char list" where
  "whitespace = [CHR 0x09, CHR 0x0A, CHR 0x0B, CHR 0x0C, CHR 0x0D,
                 CHR 0x1C, CHR 0x1D, CHR 0x1E, CHR 0x1F, CHR 0x20, CHR 0x85, CHR 0xA0]"

definition quote_chars :: "char list" where
  "quote_chars = [CHR 0x27, CHR 0x22]"

definition strip_chars :: "char list \<Rightarrow> string \<Rightarrow> string" where
  "strip_chars cs s = rev (dropWhile (\<lambda>c. c \<in> set cs) (rev (dropWhile (\<lambda>c. c \<in> set cs) s)))"

definition strip :: "string \<Rightarrow> string" where
  "strip s = strip_chars whitespace s"

text \<open>\<^verbatim>\<open>sep.join(xs)\<close>\<close>

fun join :: "string \<Rightarrow> string list \<Rightarrow> string" where
  "join sep [] = []"
| "join sep [x] = x"
| "join sep (x # y # ys) = x @ sep @ join sep (y # ys)"

section \<open>Formatting of results\<close>

text \<open>
  Each handler formats the provider's results in a loop
  \<^verbatim>\<open>for i, result in enumerate(results, 1)\<close> that appends one entry per result, and joins
  the entries under a header. An exception in an entry leaves the loop. The number of
  an entry and the number of results are those of a list in memory, far below the
  limit of printing, and are printed as they are.
\<close>

fun format_entries :: "(nat \<Rightarrow> pydict \<Rightarrow> exn + string) \<Rightarrow> nat \<Rightarrow> pydict list \<Rightarrow> exn + string list" where
  "format_entries f i [] = Inr []"
| "format_entries f i (r # rs) =
     (case f i r of
        Inl e \<Rightarrow> Inl e
      | Inr s \<Rightarrow> (case format_entries f (Suc i) rs of Inl e \<Rightarrow> Inl e | Inr ss \<Rightarrow> Inr (s # ss)))"

definition found :: "string \<Rightarrow> (nat \<Rightarrow> pydict \<Rightarrow> exn + string) \<Rightarrow> pydict list \<Rightarrow> exn + string" where
  "found noun f results =
     (case format_entries f 1 results of
        Inl e \<Rightarrow> Inl e
      | Inr formatted_results \<Rightarrow>
          Inr (''Found '' @ string_of_nat (length results) @ '' '' @ noun @ '':\<newline>\<newline>''
               @ join ''\<newline>'' formatted_results))"

subsection \<open>Text results (\<^verbatim>\<open>handle_text_search\<close>, the loop body)\<close>

text \<open>
  \<^verbatim>\<open>url = result.get('href', 'N/A')\<close>, then the rewrite of a URL without a scheme, guarded
  by \<^verbatim>\<open>url and url != 'N/A'\<close>. \<^verbatim>\<open>startswith\<close> exists on strings only.
\<close>

definition text_url :: "pydict \<Rightarrow> exn + pyval" where
  "text_url result =
     (let url = dict_get result ''href'' (PStr ''N/A'') in
      if truthy url \<and> url \<noteq> PStr ''N/A'' then
        (case url of
           PStr s \<Rightarrow>
             if \<not> (startswith s ''http://'' \<or> startswith s ''https://'') then
               Inr (PStr (if \<not> startswith s ''//'' then ''https://'' @ s else ''https:'' @ s))
             else Inr url
         | _ \<Rightarrow> Inl (no_attribute url ''startswith''))
      else Inr url)"

definition text_entry :: "nat \<Rightarrow> pydict \<Rightarrow> exn + string" where
  "text_entry i result =
     (case text_url result of
        Inl e \<Rightarrow> Inl e
      | Inr url \<Rightarrow>
          fstring [Lit (string_of_nat i), Lit ''. '', Fld (dict_get result ''title'' (PStr ''No title'')), Lit ''\<newline>'',
                   Lit ''   URL: '', Fld url, Lit ''\<newline>'',
                   Lit ''   '', Fld (dict_get result ''body'' (PStr ''No description'')), Lit ''\<newline>''])"

subsection \<open>Image, video, news and book results\<close>

definition image_entry :: "nat \<Rightarrow> pydict \<Rightarrow> exn + string" where
  "image_entry i result =
     fstring [Lit (string_of_nat i), Lit ''. **'', Fld (dict_get result ''title'' (PStr ''No title'')), Lit ''**\<newline>'',
              Lit ''   Image: '', Fld (dict_get result ''image'' (PStr ''N/A'')), Lit ''\<newline>'',
              Lit ''   Thumbnail: '', Fld (dict_get result ''thumbnail'' (PStr ''N/A'')), Lit ''\<newline>'',
              Lit ''   Source: '', Fld (dict_get result ''url'' (PStr ''N/A'')), Lit ''\<newline>'',
              Lit ''   Dimensions: '', Fld (dict_get result ''width'' (PStr ''?'')), Lit ''x'',
              Fld (dict_get result ''height'' (PStr ''?'')), Lit ''\<newline>'']"

text \<open>\<^verbatim>\<open>v[:200]\<close>: the first 200 characters of a string; no other value here has a slice.\<close>

definition slice200 :: "pyval \<Rightarrow> exn + pyval" where
  "slice200 v = (case v of PStr s \<Rightarrow> Inr (PStr (take 200 s)) | _ \<Rightarrow> Inl (not_subscriptable v))"

text \<open>
  The fields before the description are printed before the description is sliced, so a
  field that cannot be printed raises first.
\<close>

definition video_entry :: "nat \<Rightarrow> pydict \<Rightarrow> exn + string" where
  "video_entry i result =
     (case fstring [Lit (string_of_nat i), Lit ''. **'', Fld (dict_get result ''title'' (PStr ''No title'')), Lit ''**\<newline>'',
                    Lit ''   URL: '', Fld (dict_get result ''content'' (PStr ''N/A'')), Lit ''\<newline>'',
                    Lit ''   Duration: '', Fld (dict_get result ''duration'' (PStr ''N/A'')), Lit ''\<newline>'',
                    Lit ''   Publisher: '', Fld (dict_get result ''publisher'' (PStr ''N/A'')), Lit ''\<newline>'',
                    Lit ''   Published: '', Fld (dict_get result ''published'' (PStr ''N/A'')), Lit ''\<newline>'',
                    Lit ''   Description: ''] of
        Inl e \<Rightarrow> Inl e
      | Inr before \<Rightarrow>
          (case slice200 (dict_get result ''description'' (PStr ''No description'')) of
             Inl e \<Rightarrow> Inl e
           | Inr description \<Rightarrow>
               (case fstring [Fld description, Lit ''...\<newline>''] of
                  Inl e \<Rightarrow> Inl e
                | Inr after \<Rightarrow> Inr (before @ after))))"

definition news_entry :: "nat \<Rightarrow> pydict \<Rightarrow> exn + string" where
  "news_entry i result =
     fstring [Lit (string_of_nat i), Lit ''. **'', Fld (dict_get result ''title'' (PStr ''No title'')), Lit ''**\<newline>'',
              Lit ''   Source: '', Fld (dict_get result ''source'' (PStr ''N/A'')), Lit ''\<newline>'',
              Lit ''   Date: '', Fld (dict_get result ''date'' (PStr ''N/A'')), Lit ''\<newline>'',
              Lit ''   URL: '', Fld (dict_get result ''url'' (PStr ''N/A'')), Lit ''\<newline>'',
              Lit ''   '', Fld (dict_get result ''body'' (PStr ''No description'')), Lit ''\<newline>'']"

definition book_entry :: "nat \<Rightarrow> pydict \<Rightarrow> exn + string" where
  "book_entry i result =
     fstring [Lit (string_of_nat i), Lit ''. **'', Fld (dict_get result ''title'' (PStr ''No title'')), Lit ''**\<newline>'',
              Lit ''   Author: '', Fld (dict_get result ''author'' (PStr ''N/A'')), Lit ''\<newline>'',
              Lit ''   Publisher: '', Fld (dict_get result ''publisher'' (PStr ''N/A'')), Lit ''\<newline>'',
              Lit ''   Info: '', Fld (dict_get result ''info'' (PStr ''N/A'')), Lit ''\<newline>'',
              Lit ''   URL: '', Fld (dict_get result ''url'' (PStr ''N/A'')), Lit ''\<newline>'']"

subsection \<open>The listing or the no-results message\<close>

text \<open>
  The end of every handler: \<^verbatim>\<open>if not results: return [TextContent(text="No ... found.")]\<close>,
  else the entries under the header \<^verbatim>\<open>Found {len(results)} ...:\<close>, as one text payload.
\<close>

datatype kind = Text | Images | Videos | News | Books

definition render :: "string \<Rightarrow> string \<Rightarrow> (nat \<Rightarrow> pydict \<Rightarrow> exn + string) \<Rightarrow> pydict list \<Rightarrow> exn + string list" where
  "render none noun f results =
     (case results of
        [] \<Rightarrow> Inr [none]
      | _ \<Rightarrow> (case found noun f results of Inl e \<Rightarrow> Inl e | Inr t \<Rightarrow> Inr [t]))"

fun format_results :: "kind \<Rightarrow> pydict list \<Rightarrow> exn + string list" where
  "format_results Text = render ''No results found.'' ''results'' text_entry"
| "format_results Images = render ''No images found.'' ''images'' image_entry"
| "format_results Videos = render ''No videos found.'' ''videos'' video_entry"
| "format_results News = render ''No news found.'' ''news articles'' news_entry"
| "format_results Books = render ''No books found.'' ''books'' book_entry"

section \<open>Provider clients and the state of the server\<close>

text \<open>
  A client is an object built by \<^verbatim>\<open>DDGS(proxy=..., timeout=..., verify=...)\<close>. Its identity
  is the number of clients built before it. The provider is outside the program: it is
  a parameter that maps the client, the operation and the keyword arguments of a call
  to a list of results or to an exception.
\<close>

record client =
  c_id :: nat
  c_proxy :: "string option"
  c_timeout :: int
  c_verify :: bool

type_synonym kwargs = "(string \<times> pyval) list"

type_synonym provider = "client \<Rightarrow> kind \<Rightarrow> kwargs \<Rightarrow> exn + pydict list"

text \<open>
  Where a provider call runs: inside the coroutine, on the thread of the event loop that
  accepts the invocations, or on a worker thread, which is where
  \<^verbatim>\<open>await asyncio.to_thread(f, ...)\<close> runs \<^verbatim>\<open>f\<close>.
\<close>

datatype execution_context = Loop | Worker

text \<open>
  The state: the module's global \<^verbatim>\<open>ddgs_instance\<close>, the number of clients built so far,
  the provider calls made so far, in order, and where each of them ran, in the same
  order.
\<close>

record server =
  ddgs_instance :: "client option"
  built :: nat
  calls :: "(client \<times> kind \<times> kwargs) list"
  contexts :: "execution_context list"

definition startup :: server where
  "startup = \<lparr>ddgs_instance = None, built = 0, calls = [], contexts = []\<rparr>"

definition DDGS :: "string option \<Rightarrow> int \<Rightarrow> bool \<Rightarrow> server \<Rightarrow> client \<times> server" where
  "DDGS proxy timeout verify st =
     (\<lparr>c_id = built st, c_proxy = proxy, c_timeout = timeout, c_verify = verify\<rparr>,
      st\<lparr>built := Suc (built st)\<rparr>)"

text \<open>\<^verbatim>\<open>if ddgs_instance is None or proxy: ddgs_instance = DDGS(...)\<close>\<close>

definition get_ddgs_instance :: "string option \<Rightarrow> int \<Rightarrow> server \<Rightarrow> client \<times> server" where
  "get_ddgs_instance proxy timeout st =
     (let build = (case DDGS proxy timeout True st of (c, st') \<Rightarrow> (c, st'\<lparr>ddgs_instance := Some c\<rparr>)) in
      case ddgs_instance st of
        None \<Rightarrow> build
      | Some c \<Rightarrow> (case proxy of None \<Rightarrow> (c, st) | Some p \<Rightarrow> if p \<noteq> [] then build else (c, st)))"

definition call_provider ::
  "execution_context \<Rightarrow> provider \<Rightarrow> client \<Rightarrow> kind \<Rightarrow> kwargs \<Rightarrow> server \<Rightarrow> (exn + pydict list) \<times> server" where
  "call_provider ctx prov c k kw st =
     (prov c k kw, st\<lparr>calls := calls st @ [(c, k, kw)], contexts := contexts st @ [ctx]\<rparr>)"

section \<open>The handlers\<close>

text \<open>
  The three texts an \<^verbatim>\<open>except\<close> clause answers with: the inner and the outer one of
  \<^verbatim>\<open>handle_text_search\<close>, and the one of \<^verbatim>\<open>handle_call_tool\<close>.
\<close>

definition search_failed_text :: "exn \<Rightarrow> string" where
  "search_failed_text e =
     ''Search failed: '' @ exn_str e @ ''\<newline>Try a simpler query or different parameters.''"

definition search_error_text :: "exn \<Rightarrow> string" where
  "search_error_text e =
     ''Search error: '' @ exn_str e @ ''\<newline>Please try again with different parameters.''"

definition executing_error_text :: "exn \<Rightarrow> string" where
  "executing_error_text e = ''Error executing search: '' @ exn_str e"

definition error_texts :: "exn \<Rightarrow> string list" where
  "error_texts e = [search_failed_text e, search_error_text e, executing_error_text e]"

subsection \<open>Text search\<close>

text \<open>The local variables of \<^verbatim>\<open>handle_text_search\<close> once the arguments are read and cleaned.\<close>

record text_request =
  query :: pyval
  region :: pyval
  safesearch :: pyval
  timelimit :: pyval
  max_results :: pyval
  backend :: pyval
  proxy_value :: "string option"

text \<open>
  \<^verbatim>\<open>if backend: backend = backend.strip().strip("'\"")\<close> and then
  \<^verbatim>\<open>if not backend or backend == "auto": backend = "duckduckgo"\<close>.
\<close>

definition clean_backend :: "pyval \<Rightarrow> exn + pyval" where
  "clean_backend backend0 =
     (case (if truthy backend0 then
              (case backend0 of
                 PStr s \<Rightarrow> Inr (PStr (strip_chars quote_chars (strip s)))
               | _ \<Rightarrow> Inl (no_attribute backend0 ''strip''))
            else Inr backend0) of
        Inl e \<Rightarrow> Inl e
      | Inr b \<Rightarrow> Inr (if \<not> truthy b \<or> b = PStr ''auto'' then PStr ''duckduckgo'' else b))"

text \<open>
  \<^verbatim>\<open>if proxy and isinstance(proxy, str) and proxy.strip() and proxy.strip() != '':\<close>
  \<^verbatim>\<open>proxy_value = proxy.strip()\<close>, else \<^verbatim>\<open>None\<close>.
\<close>

definition clean_proxy :: "pyval \<Rightarrow> string option" where
  "clean_proxy proxy =
     (case proxy of
        PStr p \<Rightarrow> if p \<noteq> [] \<and> strip p \<noteq> [] \<and> strip p \<noteq> [] then Some (strip p) else None
      | _ \<Rightarrow> None)"

text \<open>
  The arguments are read, the line \<^verbatim>\<open>Text search: ...\<close> is logged with the query, the
  region, the result cap and the backend as read, and then the backend and the proxy
  are cleaned. The two later lines, \<^verbatim>\<open>Using backend\<close> and \<^verbatim>\<open>Using proxy\<close>, print strings
  and cannot raise.
\<close>

definition text_arguments :: "pydict \<Rightarrow> exn + text_request" where
  "text_arguments arguments =
     (case arguments ''query'' of
        None \<Rightarrow> Inl missing_query
      | Some q \<Rightarrow>
          (case logger_info [Lit (''Text search: query='' @ [CHR 0x27]), Fld q,
                             Lit (CHR 0x27 # '', region=''), Fld (dict_get arguments ''region'' (PStr ''us-en'')),
                             Lit '', max_results='', Fld (dict_get arguments ''max_results'' (PInt 10)),
                             Lit '', backend='', Fld (dict_get arguments ''backend'' (PStr ''auto''))] of
             Inl e \<Rightarrow> Inl e
           | Inr u \<Rightarrow>
               (case clean_backend (dict_get arguments ''backend'' (PStr ''auto'')) of
                  Inl e \<Rightarrow> Inl e
                | Inr b \<Rightarrow>
                    Inr \<lparr>query = q,
                         region = dict_get arguments ''region'' (PStr ''us-en''),
                         safesearch = dict_get arguments ''safesearch'' (PStr ''moderate''),
                         timelimit = dict_get arguments ''timelimit'' PNone,
                         max_results = dict_get arguments ''max_results'' (PInt 10),
                         backend = b,
                         proxy_value = clean_proxy (dict_get arguments ''proxy'' PNone)\<rparr>)))"

definition text_kwargs :: "text_request \<Rightarrow> kwargs" where
  "text_kwargs rq =
     [(''query'', query rq), (''region'', region rq), (''safesearch'', safesearch rq),
      (''timelimit'', timelimit rq), (''max_results'', max_results rq), (''page'', PInt 1),
      (''backend'', backend rq)]"

text \<open>
  The body of the handler's outer \<^verbatim>\<open>try\<close>. The call of the provider is handed to
  \<^verbatim>\<open>asyncio.to_thread\<close>; a failure of the provider is caught inside.
\<close>

definition text_search_try :: "provider \<Rightarrow> pydict \<Rightarrow> server \<Rightarrow> (exn + string list) \<times> server" where
  "text_search_try prov arguments st =
     (case text_arguments arguments of
        Inl e \<Rightarrow> (Inl e, st)
      | Inr rq \<Rightarrow>
          (case DDGS (proxy_value rq) 10 True st of
             (ddgs, st1) \<Rightarrow>
               (case call_provider Worker prov ddgs Text (text_kwargs rq) st1 of
                  (Inl search_error, st2) \<Rightarrow>
                    (Inr [search_failed_text search_error], st2)
                | (Inr results, st2) \<Rightarrow> (format_results Text results, st2))))"

definition handle_text_search :: "provider \<Rightarrow> pydict \<Rightarrow> server \<Rightarrow> (exn + string list) \<times> server" where
  "handle_text_search prov arguments st =
     (case text_search_try prov arguments st of
        (Inr out, st') \<Rightarrow> (Inr out, st')
      | (Inl e, st') \<Rightarrow>
          (Inr [search_error_text e], st'))"

subsection \<open>Image, video, news and book search\<close>

text \<open>
  These four read the arguments, log a line with the query and the result cap, take the
  client from \<^verbatim>\<open>get_ddgs_instance()\<close>, call the provider inside the coroutine and format.
  They catch nothing.
\<close>

definition cached_search :: "provider \<Rightarrow> kind \<Rightarrow> kwargs \<Rightarrow> server \<Rightarrow> (exn + string list) \<times> server" where
  "cached_search prov k kw st =
     (case get_ddgs_instance None 10 st of
        (ddgs, st1) \<Rightarrow>
          (case call_provider Loop prov ddgs k kw st1 of
             (Inl e, st2) \<Rightarrow> (Inl e, st2)
           | (Inr results, st2) \<Rightarrow> (format_results k results, st2)))"

definition image_arguments :: "pydict \<Rightarrow> exn + kwargs" where
  "image_arguments arguments =
     (case arguments ''query'' of
        None \<Rightarrow> Inl missing_query
      | Some q \<Rightarrow>
          (case logger_info [Lit (''Image search: query='' @ [CHR 0x27]), Fld q,
                             Lit (CHR 0x27 # '', max_results=''), Fld (dict_get arguments ''max_results'' (PInt 10))] of
             Inl e \<Rightarrow> Inl e
           | Inr u \<Rightarrow>
               Inr [(''query'', q),
                    (''region'', dict_get arguments ''region'' (PStr ''us-en'')),
                    (''safesearch'', dict_get arguments ''safesearch'' (PStr ''moderate'')),
                    (''timelimit'', dict_get arguments ''timelimit'' PNone),
                    (''max_results'', dict_get arguments ''max_results'' (PInt 10)),
                    (''size'', dict_get arguments ''size'' PNone),
                    (''color'', dict_get arguments ''color'' PNone),
                    (''type_image'', dict_get arguments ''type_image'' PNone),
                    (''layout'', dict_get arguments ''layout'' PNone),
                    (''license_image'', dict_get arguments ''license_image'' PNone)]))"

definition handle_image_search :: "provider \<Rightarrow> pydict \<Rightarrow> server \<Rightarrow> (exn + string list) \<times> server" where
  "handle_image_search prov arguments st =
     (case image_arguments arguments of
        Inl e \<Rightarrow> (Inl e, st)
      | Inr kw \<Rightarrow> cached_search prov Images kw st)"

definition video_arguments :: "pydict \<Rightarrow> exn + kwargs" where
  "video_arguments arguments =
     (case arguments ''query'' of
        None \<Rightarrow> Inl missing_query
      | Some q \<Rightarrow>
          (case logger_info [Lit (''Video search: query='' @ [CHR 0x27]), Fld q,
                             Lit (CHR 0x27 # '', max_results=''), Fld (dict_get arguments ''max_results'' (PInt 10))] of
             Inl e \<Rightarrow> Inl e
           | Inr u \<Rightarrow>
               Inr [(''query'', q),
                    (''region'', dict_get arguments ''region'' (PStr ''us-en'')),
                    (''safesearch'', dict_get arguments ''safesearch'' (PStr ''moderate'')),
                    (''timelimit'', dict_get arguments ''timelimit'' PNone),
                    (''max_results'', dict_get arguments ''max_results'' (PInt 10)),
                    (''resolution'', dict_get arguments ''resolution'' PNone),
                    (''duration'', dict_get arguments ''duration'' PNone),
                    (''license_videos'', dict_get arguments ''license_videos'' PNone)]))"

definition handle_video_search :: "provider \<Rightarrow> pydict \<Rightarrow> server \<Rightarrow> (exn + string list) \<times> server" where
  "handle_video_search prov arguments st =
     (case video_arguments arguments of
        Inl e \<Rightarrow> (Inl e, st)
      | Inr kw \<Rightarrow> cached_search prov Videos kw st)"

definition news_arguments :: "pydict \<Rightarrow> exn + kwargs" where
  "news_arguments arguments =
     (case arguments ''query'' of
        None \<Rightarrow> Inl missing_query
      | Some q \<Rightarrow>
          (case logger_info [Lit (''News search: query='' @ [CHR 0x27]), Fld q,
                             Lit (CHR 0x27 # '', max_results=''), Fld (dict_get arguments ''max_results'' (PInt 10))] of
             Inl e \<Rightarrow> Inl e
           | Inr u \<Rightarrow>
               Inr [(''query'', q),
                    (''region'', dict_get arguments ''region'' (PStr ''us-en'')),
                    (''safesearch'', dict_get arguments ''safesearch'' (PStr ''moderate'')),
                    (''timelimit'', dict_get arguments ''timelimit'' PNone),
                    (''max_results'', dict_get arguments ''max_results'' (PInt 10)),
                    (''backend'', dict_get arguments ''backend'' (PStr ''auto''))]))"

definition handle_news_search :: "provider \<Rightarrow> pydict \<Rightarrow> server \<Rightarrow> (exn + string list) \<times> server" where
  "handle_news_search prov arguments st =
     (case news_arguments arguments of
        Inl e \<Rightarrow> (Inl e, st)
      | Inr kw \<Rightarrow> cached_search prov News kw st)"

definition book_arguments :: "pydict \<Rightarrow> exn + kwargs" where
  "book_arguments arguments =
     (case arguments ''query'' of
        None \<Rightarrow> Inl missing_query
      | Some q \<Rightarrow>
          (case logger_info [Lit (''Book search: query='' @ [CHR 0x27]), Fld q,
                             Lit (CHR 0x27 # '', max_results=''), Fld (dict_get arguments ''max_results'' (PInt 10))] of
             Inl e \<Rightarrow> Inl e
           | Inr u \<Rightarrow>
               Inr [(''query'', q),
                    (''max_results'', dict_get arguments ''max_results'' (PInt 10))]))"

definition handle_book_search :: "provider \<Rightarrow> pydict \<Rightarrow> server \<Rightarrow> (exn + string list) \<times> server" where
  "handle_book_search prov arguments st =
     (case book_arguments arguments of
        Inl e \<Rightarrow> (Inl e, st)
      | Inr kw \<Rightarrow> cached_search prov Books kw st)"

subsection \<open>Dispatch on the tool name\<close>

text \<open>The names of the tools that \<^verbatim>\<open>handle_list_tools\<close> declares, in its order.\<close>

definition tool_names :: "string list" where
  "tool_names = [''ddgs_text_search'', ''ddgs_image_search'', ''ddgs_video_search'',
                 ''ddgs_news_search'', ''ddgs_book_search'']"

text \<open>
  The body of the \<^verbatim>\<open>try\<close> of \<^verbatim>\<open>handle_call_tool\<close>: the handler of the named tool, or a
  \<^verbatim>\<open>ValueError\<close> for any other name. \<^verbatim>\<open>handle_text_search\<close> has caught its exceptions
  itself and always returns normally.
\<close>

definition dispatch :: "provider \<Rightarrow> string \<Rightarrow> pydict \<Rightarrow> server \<Rightarrow> (exn + string list) \<times> server" where
  "dispatch prov name arguments st =
     (if name = ''ddgs_text_search'' then handle_text_search prov arguments st
      else if name = ''ddgs_image_search'' then handle_image_search prov arguments st
      else if name = ''ddgs_video_search'' then handle_video_search prov arguments st
      else if name = ''ddgs_news_search'' then handle_news_search prov arguments st
      else if name = ''ddgs_book_search'' then handle_book_search prov arguments st
      else (Inl (ValueError (''Unknown tool: '' @ name)), st))"

text \<open>
  \<^verbatim>\<open>handle_call_tool\<close>, the function itself: the dispatch inside \<^verbatim>\<open>try\<close>, every exception
  turned into one text.
\<close>

definition handle_call_tool :: "provider \<Rightarrow> string \<Rightarrow> pydict \<Rightarrow> server \<Rightarrow> string list \<times> server" where
  "handle_call_tool prov name arguments st =
     (case dispatch prov name arguments st of
        (Inr out, st') \<Rightarrow> (out, st')
      | (Inl e, st') \<Rightarrow> ([executing_error_text e], st'))"

text \<open>
  A sequence of invocations, each with the behaviour of the provider during it, served
  one after the other.
\<close>

type_synonym invocation = "provider \<times> string \<times> pydict"

fun serve :: "invocation list \<Rightarrow> server \<Rightarrow> string list list \<times> server" where
  "serve [] st = ([], st)"
| "serve ((prov, name, arguments) # rest) st =
     (case handle_call_tool prov name arguments st of
        (out, st1) \<Rightarrow> (case serve rest st1 of (outs, st2) \<Rightarrow> (out # outs, st2)))"

section \<open>The declared tools and the served entry\<close>

subsection \<open>The input schemas of \<^verbatim>\<open>handle_list_tools\<close>\<close>

text \<open>
  \<^verbatim>\<open>handle_list_tools\<close> declares, for each tool, the properties of its arguments: the type
  of each, the enumeration of its values where there is one, the bounds of a number, and
  the properties that are required. Descriptions and defaults do not bear on what is
  accepted and are left out.
\<close>

datatype json_type = JString | JInteger

record property =
  p_type :: json_type
  p_enum :: "string list option"
  p_minimum :: "int option"
  p_maximum :: "int option"

record input_schema =
  s_properties :: "(string \<times> property) list"
  s_required :: "string list"

definition string_property :: property where
  "string_property = \<lparr>p_type = JString, p_enum = None, p_minimum = None, p_maximum = None\<rparr>"

definition enum_property :: "string list \<Rightarrow> property" where
  "enum_property vs = \<lparr>p_type = JString, p_enum = Some vs, p_minimum = None, p_maximum = None\<rparr>"

definition integer_property :: "int \<Rightarrow> int \<Rightarrow> property" where
  "integer_property lo hi = \<lparr>p_type = JInteger, p_enum = None, p_minimum = Some lo, p_maximum = Some hi\<rparr>"

definition handle_list_tools :: "(string \<times> input_schema) list" where
  "handle_list_tools =
     [(''ddgs_text_search'',
       \<lparr>s_properties =
          [(''query'', string_property),
           (''region'', string_property),
           (''safesearch'', enum_property [''on'', ''moderate'', ''off'']),
           (''timelimit'', enum_property [''d'', ''w'', ''m'', ''y'']),
           (''max_results'', integer_property 1 100),
           (''backend'', string_property),
           (''proxy'', string_property)],
        s_required = [''query'']\<rparr>),
      (''ddgs_image_search'',
       \<lparr>s_properties =
          [(''query'', string_property),
           (''region'', string_property),
           (''safesearch'', enum_property [''on'', ''moderate'', ''off'']),
           (''timelimit'', enum_property [''d'', ''w'', ''m'', ''y'']),
           (''max_results'', integer_property 1 100),
           (''size'', enum_property [''Small'', ''Medium'', ''Large'', ''Wallpaper'']),
           (''color'', enum_property [''color'', ''Monochrome'', ''Red'', ''Orange'', ''Yellow'', ''Green'',
                                      ''Blue'', ''Purple'', ''Pink'', ''Brown'', ''Black'', ''Gray'', ''Teal'', ''White'']),
           (''type_image'', enum_property [''photo'', ''clipart'', ''gif'', ''transparent'', ''line'']),
           (''layout'', enum_property [''Square'', ''Tall'', ''Wide'']),
           (''license_image'', enum_property [''any'', ''Public'', ''Share'', ''ShareCommercially'',
                                              ''Modify'', ''ModifyCommercially''])],
        s_required = [''query'']\<rparr>),
      (''ddgs_video_search'',
       \<lparr>s_properties =
          [(''query'', string_property),
           (''region'', string_property),
           (''safesearch'', enum_property [''on'', ''moderate'', ''off'']),
           (''timelimit'', enum_property [''d'', ''w'', ''m'']),
           (''max_results'', integer_property 1 100),
           (''resolution'', enum_property [''high'', ''standard'']),
           (''duration'', enum_property [''short'', ''medium'', ''long'']),
           (''license_videos'', enum_property [''creativeCommon'', ''youtube''])],
        s_required = [''query'']\<rparr>),
      (''ddgs_news_search'',
       \<lparr>s_properties =
          [(''query'', string_property),
           (''region'', string_property),
           (''safesearch'', enum_property [''on'', ''moderate'', ''off'']),
           (''timelimit'', enum_property [''d'', ''w'', ''m'']),
           (''max_results'', integer_property 1 100),
           (''backend'', string_property)],
        s_required = [''query'']\<rparr>),
      (''ddgs_book_search'',
       \<lparr>s_properties =
          [(''query'', string_property),
           (''max_results'', integer_property 1 100)],
        s_required = [''query'']\<rparr>)]"

subsection \<open>Validation of the arguments\<close>

text \<open>
  Modelled from the spec: the validation of the arguments against the schema of the tool.
  \<^verbatim>\<open>handle_call_tool\<close> is registered with \<^verbatim>\<open>@app.call_tool()\<close>; the registration, whose code is
  not part of the source files, checks the arguments of a listed tool against the
  declared schema before the function runs. The specification describes the check: its
  outcome is the request or a validation error that identifies the offending parameter
  and the violated constraint, which is a missing required field, a type mismatch, a
  value not in the enumeration, or a number outside its bounds.
\<close>

datatype constraint =
    Missing
  | WrongType json_type
  | NotInEnum "string list"
  | BelowMinimum int
  | AboveMaximum int

record validation_error =
  parameter :: string
  violated :: constraint

text \<open>
  Modelled from the spec: the type mismatch. A string property takes a string and an
  integer property an integer; a boolean is not an integer for a schema.
\<close>

fun has_type :: "json_type \<Rightarrow> pyval \<Rightarrow> bool" where
  "has_type JString (PStr s) = True"
| "has_type JInteger (PInt i) = True"
| "has_type t v = False"

text \<open>
  Modelled from the spec: the constraints that one value violates as the value of one
  property, in the order type, enumeration, minimum, maximum.
\<close>

definition check_property :: "string \<Rightarrow> property \<Rightarrow> pyval \<Rightarrow> validation_error list" where
  "check_property key p v =
     (if has_type (p_type p) v then [] else [\<lparr>parameter = key, violated = WrongType (p_type p)\<rparr>])
     @ (case p_enum p of
          None \<Rightarrow> []
        | Some vs \<Rightarrow> if v \<in> set (map PStr vs) then [] else [\<lparr>parameter = key, violated = NotInEnum vs\<rparr>])
     @ (case (p_minimum p, v) of
          (Some lo, PInt i) \<Rightarrow> if i < lo then [\<lparr>parameter = key, violated = BelowMinimum lo\<rparr>] else []
        | _ \<Rightarrow> [])
     @ (case (p_maximum p, v) of
          (Some hi, PInt i) \<Rightarrow> if hi < i then [\<lparr>parameter = key, violated = AboveMaximum hi\<rparr>] else []
        | _ \<Rightarrow> [])"

text \<open>
  Modelled from the spec: every violation found, those of the properties that the
  arguments hold, then the required properties that they lack. Arguments that the schema
  does not name are ignored.
\<close>

definition validate :: "input_schema \<Rightarrow> pydict \<Rightarrow> validation_error list" where
  "validate schema arguments =
     concat (map (\<lambda>(key, p). case arguments key of None \<Rightarrow> [] | Some v \<Rightarrow> check_property key p v)
               (s_properties schema))
     @ map (\<lambda>key. \<lparr>parameter = key, violated = Missing\<rparr>)
         (filter (\<lambda>key. arguments key = None) (s_required schema))"

text \<open>
  Modelled from the spec: the served entry. A validation error is surfaced at once as one
  text, with no call of the provider and no other effect; arguments without a violation
  go to \<^verbatim>\<open>handle_call_tool\<close>, and so does a name that is not listed, for which there is no
  schema to check against. The wording of the text is not fixed by the specification and
  is a parameter.
\<close>

definition call_tool ::
  "(validation_error list \<Rightarrow> string) \<Rightarrow> provider \<Rightarrow> string \<Rightarrow> pydict \<Rightarrow> server \<Rightarrow> string list \<times> server" where
  "call_tool message prov name arguments st =
     (case map_of handle_list_tools name of
        None \<Rightarrow> handle_call_tool prov name arguments st
      | Some schema \<Rightarrow>
          (case validate schema arguments of
             [] \<Rightarrow> handle_call_tool prov name arguments st
           | e # es \<Rightarrow> ([message (e # es)], st)))"

section \<open>Notions used to state the properties\<close>

subsection \<open>Formatting\<close>

definition is_str :: "pyval \<Rightarrow> bool" where
  "is_str v = (case v of PStr s \<Rightarrow> True | _ \<Rightarrow> False)"

text \<open>
  The fields each template reads, with the default that \<^verbatim>\<open>result.get\<close> is given for
  each.
\<close>

fun placeholders :: "kind \<Rightarrow> (string \<times> string) list" where
  "placeholders Text = [(''title'', ''No title''), (''href'', ''N/A''), (''body'', ''No description'')]"
| "placeholders Images =
     [(''title'', ''No title''), (''image'', ''N/A''), (''thumbnail'', ''N/A''), (''url'', ''N/A''),
      (''width'', ''?''), (''height'', ''?'')]"
| "placeholders Videos =
     [(''title'', ''No title''), (''content'', ''N/A''), (''duration'', ''N/A''), (''publisher'', ''N/A''),
      (''published'', ''N/A''), (''description'', ''No description'')]"
| "placeholders News =
     [(''title'', ''No title''), (''source'', ''N/A''), (''date'', ''N/A''), (''url'', ''N/A''),
      (''body'', ''No description'')]"
| "placeholders Books =
     [(''title'', ''No title''), (''author'', ''N/A''), (''publisher'', ''N/A''), (''info'', ''N/A''),
      (''url'', ''N/A'')]"

text \<open>
  The results on which formatting is shown to succeed (claim C4): every field that the
  template reads is absent or holds a value that can be printed (anything but an integer
  of more than 4300 digits); the \<^verbatim>\<open>href\<close> of a text result is absent, false as a condition, or a
  string; the \<^verbatim>\<open>description\<close> of a video result is absent or a string.
\<close>

fun well_formed :: "kind \<Rightarrow> pydict \<Rightarrow> bool" where
  "well_formed Text result = (let url = dict_get result ''href'' (PStr ''N/A'') in is_str url \<or> \<not> truthy url)"
| "well_formed Videos result = is_str (dict_get result ''description'' (PStr ''No description''))"
| "well_formed k result = True"

definition formattable :: "kind \<Rightarrow> pydict \<Rightarrow> bool" where
  "formattable k result =
     (list_all (\<lambda>(key, d). \<not> too_long (dict_get result key (PStr d))) (placeholders k)
      \<and> well_formed k result)"

text \<open>
  The rendered text, written out on its own and not through the formatting functions:
  the 1-based numbered list of the specification, each entry after the template of its
  kind. A field is shown by its text, or by the placeholder when the result does not
  have it.
\<close>

definition shown :: "pydict \<Rightarrow> string \<Rightarrow> string \<Rightarrow> string" where
  "shown result key placeholder = (case result key of None \<Rightarrow> placeholder | Some v \<Rightarrow> str_text v)"

text \<open>
  The URL of a text result as it is shown: a string with a scheme, the empty string and
  \<^verbatim>\<open>N/A\<close> as they are, \<^verbatim>\<open>https:\<close> before a string that starts with \<^verbatim>\<open>//\<close>, and
  \<^verbatim>\<open>https://\<close> before any other string.
\<close>

definition shown_url :: "pydict \<Rightarrow> string" where
  "shown_url result =
     (case result ''href'' of
        Some (PStr u) \<Rightarrow>
          if startswith u ''http://'' \<or> startswith u ''https://'' then u
          else if u = [] \<or> u = ''N/A'' then u
          else if startswith u ''//'' then ''https:'' @ u
          else ''https://'' @ u
      | _ \<Rightarrow> shown result ''href'' ''N/A'')"

text \<open>
  The entry of each kind: the number, then one line for each field, under its label.
  The description of a video is cut to 200 characters and followed by three dots.
\<close>

fun expected_entry :: "kind \<Rightarrow> nat \<Rightarrow> pydict \<Rightarrow> string" where
  "expected_entry Text i r =
     string_of_nat i @ ''. '' @ shown r ''title'' ''No title'' @ ''\<newline>''
     @ ''   URL: '' @ shown_url r @ ''\<newline>''
     @ ''   '' @ shown r ''body'' ''No description'' @ ''\<newline>''"
| "expected_entry Images i r =
     string_of_nat i @ ''. **'' @ shown r ''title'' ''No title'' @ ''**\<newline>''
     @ ''   Image: '' @ shown r ''image'' ''N/A'' @ ''\<newline>''
     @ ''   Thumbnail: '' @ shown r ''thumbnail'' ''N/A'' @ ''\<newline>''
     @ ''   Source: '' @ shown r ''url'' ''N/A'' @ ''\<newline>''
     @ ''   Dimensions: '' @ shown r ''width'' ''?'' @ ''x'' @ shown r ''height'' ''?'' @ ''\<newline>''"
| "expected_entry Videos i r =
     string_of_nat i @ ''. **'' @ shown r ''title'' ''No title'' @ ''**\<newline>''
     @ ''   URL: '' @ shown r ''content'' ''N/A'' @ ''\<newline>''
     @ ''   Duration: '' @ shown r ''duration'' ''N/A'' @ ''\<newline>''
     @ ''   Publisher: '' @ shown r ''publisher'' ''N/A'' @ ''\<newline>''
     @ ''   Published: '' @ shown r ''published'' ''N/A'' @ ''\<newline>''
     @ ''   Description: '' @ take 200 (shown r ''description'' ''No description'') @ ''...\<newline>''"
| "expected_entry News i r =
     string_of_nat i @ ''. **'' @ shown r ''title'' ''No title'' @ ''**\<newline>''
     @ ''   Source: '' @ shown r ''source'' ''N/A'' @ ''\<newline>''
     @ ''   Date: '' @ shown r ''date'' ''N/A'' @ ''\<newline>''
     @ ''   URL: '' @ shown r ''url'' ''N/A'' @ ''\<newline>''
     @ ''   '' @ shown r ''body'' ''No description'' @ ''\<newline>''"
| "expected_entry Books i r =
     string_of_nat i @ ''. **'' @ shown r ''title'' ''No title'' @ ''**\<newline>''
     @ ''   Author: '' @ shown r ''author'' ''N/A'' @ ''\<newline>''
     @ ''   Publisher: '' @ shown r ''publisher'' ''N/A'' @ ''\<newline>''
     @ ''   Info: '' @ shown r ''info'' ''N/A'' @ ''\<newline>''
     @ ''   URL: '' @ shown r ''url'' ''N/A'' @ ''\<newline>''"

text \<open>The entries of a sequence of results, numbered from a given number on.\<close>

fun expected_entries :: "kind \<Rightarrow> nat \<Rightarrow> pydict list \<Rightarrow> string list" where
  "expected_entries k i [] = []"
| "expected_entries k i (r # rs) = expected_entry k i r # expected_entries k (Suc i) rs"

text \<open>The whole text: the no-results message, or the header and the entries.\<close>

fun expected_text :: "kind \<Rightarrow> pydict list \<Rightarrow> string" where
  "expected_text Text [] = ''No results found.''"
| "expected_text Images [] = ''No images found.''"
| "expected_text Videos [] = ''No videos found.''"
| "expected_text News [] = ''No news found.''"
| "expected_text Books [] = ''No books found.''"
| "expected_text k results =
     ''Found '' @ string_of_nat (length results) @ '' ''
     @ (case k of Text \<Rightarrow> ''results'' | Images \<Rightarrow> ''images'' | Videos \<Rightarrow> ''videos''
        | News \<Rightarrow> ''news articles'' | Books \<Rightarrow> ''books'')
     @ '':\<newline>\<newline>'' @ join ''\<newline>'' (expected_entries k 1 results)"

text \<open>
  The template of each kind.
\<close>

fun entry :: "kind \<Rightarrow> nat \<Rightarrow> pydict \<Rightarrow> exn + string" where
  "entry Text = text_entry" | "entry Images = image_entry" | "entry Videos = video_entry"
| "entry News = news_entry" | "entry Books = book_entry"

subsection \<open>Normalising again\<close>

text \<open>
  The specification speaks of normalising an already normalised request. The handler
  takes an arguments mapping, so the request is handed back as the mapping that holds its
  fields under the names of the parameters; an absent proxy is handed back as \<^verbatim>\<open>None\<close>.
\<close>

definition as_arguments :: "text_request \<Rightarrow> pydict" where
  "as_arguments rq =
     [''query'' \<mapsto> query rq, ''region'' \<mapsto> region rq, ''safesearch'' \<mapsto> safesearch rq,
      ''timelimit'' \<mapsto> timelimit rq, ''max_results'' \<mapsto> max_results rq, ''backend'' \<mapsto> backend rq,
      ''proxy'' \<mapsto> (case proxy_value rq of None \<Rightarrow> PNone | Some p \<Rightarrow> PStr p)]"

subsection \<open>Clients over a sequence of invocations\<close>

text \<open>
  The number of provider calls made with a client.
\<close>

definition uses :: "client \<Rightarrow> (client \<times> kind \<times> kwargs) list \<Rightarrow> nat" where
  "uses c cs = length (filter (\<lambda>(c', k, kw). c_id c' = c_id c) cs)"

text \<open>
  What holds of the state after every invocation: the cached client has no proxy and was
  used by a call other than a text search; every client in a call was built before; the
  client of a text search is used by that call alone and is not the cached one; every
  other call uses the cached client.
\<close>

definition coherent :: "server \<Rightarrow> bool" where
  "coherent st =
     ((\<forall>c. ddgs_instance st = Some c \<longrightarrow>
         c_id c < built st \<and> c_proxy c = None \<and> (\<exists>k kw. (c, k, kw) \<in> set (calls st) \<and> k \<noteq> Text))
      \<and> (\<forall>c k kw. (c, k, kw) \<in> set (calls st) \<longrightarrow> c_id c < built st)
      \<and> (\<forall>c kw. (c, Text, kw) \<in> set (calls st) \<longrightarrow>
           uses c (calls st) = 1 \<and> (\<forall>c'. ddgs_instance st = Some c' \<longrightarrow> c_id c' \<noteq> c_id c))
      \<and> (\<forall>c k kw. (c, k, kw) \<in> set (calls st) \<and> k \<noteq> Text \<longrightarrow> ddgs_instance st = Some c))"

section \<open>Properties\<close>

subsection \<open>Printing\<close>

lemma too_long_simps [simp]:
  "too_long PNone = False" "too_long (PBool b) = False" "too_long (PStr s) = False"
  by (simp_all add: too_long_def)

lemma small_int_not_too_long: "\<bar>i\<bar> < 10000 \<Longrightarrow> \<not> too_long (PInt i)"
proof -
  assume small: "\<bar>i\<bar> < 10000"
  have "(10::int) ^ 4 < 10 ^ max_str_digits"
    by (rule power_strict_increasing) (simp_all add: max_str_digits_def)
  then have "(10000::int) < 10 ^ max_str_digits" by simp
  with small have "\<bar>i\<bar> < 10 ^ max_str_digits" by (rule less_trans)
  then show ?thesis by (simp add: too_long_def)
qed

lemma py_str_simps [simp]:
  "py_str PNone = Inr ''None''" "py_str (PBool b) = Inr (if b then ''True'' else ''False'')"
  "py_str (PStr s) = Inr s"
  by (simp_all add: py_str_def)

lemma py_str_small_int: "\<bar>i\<bar> < 10000 \<Longrightarrow> py_str (PInt i) = Inr (string_of_int i)"
  by (simp add: py_str_def small_int_not_too_long)

lemma py_str_printable: "\<not> too_long v \<Longrightarrow> py_str v = Inr (str_text v)"
  by (simp add: py_str_def)

subsection \<open>What a handler returns and which calls it makes\<close>

lemmas handler_defs =
  handle_call_tool_def dispatch_def handle_text_search_def text_search_try_def
  handle_image_search_def handle_video_search_def handle_news_search_def handle_book_search_def
  cached_search_def call_provider_def

lemmas eval_defs =
  handler_defs text_arguments_def image_arguments_def video_arguments_def news_arguments_def
  book_arguments_def logger_info_def py_str_small_int
  clean_backend_def clean_proxy_def text_kwargs_def dict_get_def
  DDGS_def get_ddgs_instance_def startup_def render_def found_def
  text_entry_def text_url_def startswith_def string_of_nat.simps digit_char_def
  strip_def strip_chars_def whitespace_def quote_chars_def
  executing_error_text_def search_error_text_def search_failed_text_def


lemma calls_get_ddgs_instance [simp]: "calls (snd (get_ddgs_instance proxy t st)) = calls st"
  by (simp add: get_ddgs_instance_def DDGS_def Let_def split: option.splits)

lemma get_ddgs_instance_None:
  "get_ddgs_instance None t st =
     (case ddgs_instance st of
        None \<Rightarrow> (\<lparr>c_id = built st, c_proxy = None, c_timeout = t, c_verify = True\<rparr>,
                 st\<lparr>built := Suc (built st),
                    ddgs_instance := Some \<lparr>c_id = built st, c_proxy = None, c_timeout = t, c_verify = True\<rparr>\<rparr>)
      | Some c \<Rightarrow> (c, st))"
  by (simp add: get_ddgs_instance_def DDGS_def Let_def split: option.splits)

lemma calls_cached_search:
  "calls (snd (cached_search prov k kw st)) = calls st @ [(fst (get_ddgs_instance None 10 st), k, kw)]"
proof -
  obtain c st1 where g: "get_ddgs_instance None 10 st = (c, st1)"
    by (cases "get_ddgs_instance None 10 st")
  have "calls st1 = calls st"
    using calls_get_ddgs_instance [of None 10 st] g by simp
  then show ?thesis
    by (simp add: cached_search_def call_provider_def g split: sum.splits)
qed

lemma fst_cached_search:
  "fst (cached_search prov k kw st) =
     (case prov (fst (get_ddgs_instance None 10 st)) k kw of Inl e \<Rightarrow> Inl e | Inr rs \<Rightarrow> format_results k rs)"
  by (simp add: cached_search_def call_provider_def split: prod.splits sum.splits)

lemma snd_cached_search:
  "snd (cached_search prov k kw st) =
     (case ddgs_instance st of
        None \<Rightarrow> st\<lparr>built := Suc (built st),
                   ddgs_instance := Some \<lparr>c_id = built st, c_proxy = None, c_timeout = 10, c_verify = True\<rparr>,
                   calls := calls st @ [(\<lparr>c_id = built st, c_proxy = None, c_timeout = 10, c_verify = True\<rparr>, k, kw)],
                   contexts := contexts st @ [Loop]\<rparr>
      | Some c \<Rightarrow> st\<lparr>calls := calls st @ [(c, k, kw)], contexts := contexts st @ [Loop]\<rparr>)"
  by (simp add: cached_search_def call_provider_def get_ddgs_instance_None
      split: option.splits sum.splits prod.splits)

lemma calls_text_search_try:
  "calls (snd (text_search_try prov arguments st)) =
     calls st @ (case text_arguments arguments of Inl e \<Rightarrow> []
                 | Inr rq \<Rightarrow> [(fst (DDGS (proxy_value rq) 10 True st), Text, text_kwargs rq)])"
  by (simp add: text_search_try_def call_provider_def DDGS_def split: prod.splits sum.splits)

lemma fst_text_search_try:
  "fst (text_search_try prov arguments st) =
     (case text_arguments arguments of Inl e \<Rightarrow> Inl e
      | Inr rq \<Rightarrow> (case prov (fst (DDGS (proxy_value rq) 10 True st)) Text (text_kwargs rq) of
                     Inl e \<Rightarrow> Inr [search_failed_text e] | Inr rs \<Rightarrow> format_results Text rs))"
  by (simp add: text_search_try_def call_provider_def DDGS_def split: prod.splits sum.splits)

lemma snd_text_search_try:
  "snd (text_search_try prov arguments st) =
     (case text_arguments arguments of
        Inl e \<Rightarrow> st
      | Inr rq \<Rightarrow> st\<lparr>built := Suc (built st),
                     calls := calls st @ [(\<lparr>c_id = built st, c_proxy = proxy_value rq, c_timeout = 10, c_verify = True\<rparr>,
                                           Text, text_kwargs rq)],
                     contexts := contexts st @ [Worker]\<rparr>)"
  by (simp add: text_search_try_def call_provider_def DDGS_def split: sum.splits prod.splits)

lemma snd_handle_call_tool: "snd (handle_call_tool prov name arguments st) = snd (dispatch prov name arguments st)"
  by (simp add: handle_call_tool_def split: prod.splits sum.splits)

lemma fst_handle_call_tool:
  "fst (handle_call_tool prov name arguments st) =
     (case fst (dispatch prov name arguments st) of Inr out \<Rightarrow> out | Inl e \<Rightarrow> [executing_error_text e])"
  by (simp add: handle_call_tool_def split: prod.splits sum.splits)

lemma snd_handle_text_search: "snd (handle_text_search prov arguments st) = snd (text_search_try prov arguments st)"
  by (simp add: handle_text_search_def split: prod.splits sum.splits)

lemma fst_handle_text_search:
  "fst (handle_text_search prov arguments st) =
     (case fst (text_search_try prov arguments st) of Inr out \<Rightarrow> Inr out | Inl e \<Rightarrow> Inr [search_error_text e])"
  by (simp add: handle_text_search_def split: prod.splits sum.splits)

text \<open>
  The keyword arguments that a handler other than the text handler builds from the
  arguments, when it gets as far.
\<close>

lemma dispatch_cached:
  "dispatch prov ''ddgs_image_search'' arguments st =
     (case image_arguments arguments of Inl e \<Rightarrow> (Inl e, st) | Inr kw \<Rightarrow> cached_search prov Images kw st)"
  "dispatch prov ''ddgs_video_search'' arguments st =
     (case video_arguments arguments of Inl e \<Rightarrow> (Inl e, st) | Inr kw \<Rightarrow> cached_search prov Videos kw st)"
  "dispatch prov ''ddgs_news_search'' arguments st =
     (case news_arguments arguments of Inl e \<Rightarrow> (Inl e, st) | Inr kw \<Rightarrow> cached_search prov News kw st)"
  "dispatch prov ''ddgs_book_search'' arguments st =
     (case book_arguments arguments of Inl e \<Rightarrow> (Inl e, st) | Inr kw \<Rightarrow> cached_search prov Books kw st)"
  by (simp_all add: dispatch_def handle_image_search_def handle_video_search_def
      handle_news_search_def handle_book_search_def)

lemma dispatch_text:
  "dispatch prov ''ddgs_text_search'' arguments st = handle_text_search prov arguments st"
  by (simp add: dispatch_def)

lemma dispatch_unknown:
  "name \<notin> set tool_names \<Longrightarrow> dispatch prov name arguments st = (Inl (ValueError (''Unknown tool: '' @ name)), st)"
  by (simp add: dispatch_def tool_names_def)

lemma tool_cases:
  obtains (text_tool) "name = ''ddgs_text_search''" | (image_tool) "name = ''ddgs_image_search''"
    | (video_tool) "name = ''ddgs_video_search''" | (news_tool) "name = ''ddgs_news_search''"
    | (book_tool) "name = ''ddgs_book_search''" | (unknown) "name \<notin> set tool_names"
  by (auto simp add: tool_names_def)

subsection \<open>Unknown tools\<close>

text \<open>
  Claim C7. An invocation whose name is not among the five registered tools is answered
  with the unknown-tool message as exactly one text payload. The state is the one before
  the invocation: no client is built and no provider call is made. The answer depends on
  neither the arguments nor the provider, so the arguments are never read.
\<close>

theorem unknown_tool:
  assumes "name \<notin> set tool_names"
  shows "handle_call_tool prov name arguments st = ([''Error executing search: Unknown tool: '' @ name], st)"
  using assms by (simp add: handle_call_tool_def dispatch_def tool_names_def executing_error_text_def)

theorem unknown_tool_witness:
  "handle_call_tool (\<lambda>c k kw. Inr []) ''ddgs_web_search'' [''query'' \<mapsto> PStr ''rust''] startup =
     ([''Error executing search: Unknown tool: ddgs_web_search''], startup)"
  using unknown_tool [of "''ddgs_web_search''" "\<lambda>c k kw. Inr []" "[''query'' \<mapsto> PStr ''rust'']" startup]
  by (simp add: tool_names_def)

subsection \<open>The backend\<close>

text \<open>
  Claim C3 at the input where the code departs from it. The news handler passes the
  backend \<^verbatim>\<open>auto\<close> to the provider as it is; the text handler, on the same arguments,
  replaces it by \<^verbatim>\<open>duckduckgo\<close> first.
\<close>

theorem news_backend_auto:
  "calls (snd (handle_call_tool (\<lambda>c k kw. Inr []) ''ddgs_news_search''
                 [''query'' \<mapsto> PStr ''rust'', ''backend'' \<mapsto> PStr ''auto''] startup)) =
     [(\<lparr>c_id = 0, c_proxy = None, c_timeout = 10, c_verify = True\<rparr>, News,
       [(''query'', PStr ''rust''), (''region'', PStr ''us-en''), (''safesearch'', PStr ''moderate''),
        (''timelimit'', PNone), (''max_results'', PInt 10), (''backend'', PStr ''auto'')])]
   \<and> calls (snd (handle_call_tool (\<lambda>c k kw. Inr []) ''ddgs_text_search''
                 [''query'' \<mapsto> PStr ''rust'', ''backend'' \<mapsto> PStr ''auto''] startup)) =
     [(\<lparr>c_id = 0, c_proxy = None, c_timeout = 10, c_verify = True\<rparr>, Text,
       [(''query'', PStr ''rust''), (''region'', PStr ''us-en''), (''safesearch'', PStr ''moderate''),
        (''timelimit'', PNone), (''max_results'', PInt 10), (''page'', PInt 1),
        (''backend'', PStr ''duckduckgo'')])]"
  by (simp add: eval_defs)

subsection \<open>Where the provider call runs\<close>

text \<open>
  Claim C9 at the inputs where the code departs from it. The claim says that for every
  kind the provider call is handed to a worker and never runs on the loop that accepts
  the invocations. The image, video, news and book handlers call the provider inside the
  coroutine, on the loop; only the text handler hands the call to a worker thread.
\<close>

theorem provider_call_on_loop:
  "contexts (snd (handle_call_tool (\<lambda>c k kw. Inr []) ''ddgs_image_search'' [''query'' \<mapsto> PStr ''cats''] startup)) = [Loop]
   \<and> contexts (snd (handle_call_tool (\<lambda>c k kw. Inr []) ''ddgs_video_search'' [''query'' \<mapsto> PStr ''cats''] startup)) = [Loop]
   \<and> contexts (snd (handle_call_tool (\<lambda>c k kw. Inr []) ''ddgs_news_search'' [''query'' \<mapsto> PStr ''cats''] startup)) = [Loop]
   \<and> contexts (snd (handle_call_tool (\<lambda>c k kw. Inr []) ''ddgs_book_search'' [''query'' \<mapsto> PStr ''cats''] startup)) = [Loop]
   \<and> contexts (snd (handle_call_tool (\<lambda>c k kw. Inr []) ''ddgs_text_search'' [''query'' \<mapsto> PStr ''cats''] startup)) = [Worker]"
  by (simp add: eval_defs)


subsection \<open>No results\<close>

lemma no_results_not_error:
  "''No results found.'' \<notin> set (error_texts e)" "''No images found.'' \<notin> set (error_texts e)"
  "''No videos found.'' \<notin> set (error_texts e)" "''No news found.'' \<notin> set (error_texts e)"
  "''No books found.'' \<notin> set (error_texts e)"
  by (simp_all add: error_texts_def search_failed_text_def search_error_text_def executing_error_text_def)

text \<open>
  Claim C6. When the provider is called and returns no result, every tool answers with
  its no-results message as the one text payload (for image search \<^verbatim>\<open>No images found.\<close>).
  The handler returns it normally, no exception reaches \<^verbatim>\<open>handle_call_tool\<close>, and the
  message differs from every text that an \<^verbatim>\<open>except\<close> clause produces.
\<close>

theorem no_results_message:
  assumes empty: "\<forall>c k kw. prov c k kw = Inr []"
    and called: "calls (snd (handle_call_tool prov name arguments st)) \<noteq> calls st"
  shows "\<exists>msg. fst (dispatch prov name arguments st) = Inr [msg]
           \<and> fst (handle_call_tool prov name arguments st) = [msg]
           \<and> msg = (if name = ''ddgs_text_search'' then ''No results found.''
                    else if name = ''ddgs_image_search'' then ''No images found.''
                    else if name = ''ddgs_video_search'' then ''No videos found.''
                    else if name = ''ddgs_news_search'' then ''No news found.''
                    else ''No books found.'')
           \<and> (\<forall>e. msg \<notin> set (error_texts e))"
proof -
  have reached: "calls (snd (dispatch prov name arguments st)) \<noteq> calls st"
    using called by (simp add: snd_handle_call_tool)
  show ?thesis
  proof (cases name rule: tool_cases)
    case text_tool
    with reached obtain rq where rq: "text_arguments arguments = Inr rq"
      by (cases "text_arguments arguments")
        (simp_all add: dispatch_text snd_handle_text_search calls_text_search_try)
    show ?thesis
      using text_tool rq empty
      by (simp add: fst_handle_call_tool dispatch_text fst_handle_text_search fst_text_search_try
          render_def no_results_not_error)
  next
    case image_tool
    with reached obtain kw where kw: "image_arguments arguments = Inr kw"
      by (cases "image_arguments arguments") (simp_all add: dispatch_cached)
    show ?thesis
      using image_tool kw empty
      by (simp add: fst_handle_call_tool dispatch_cached fst_cached_search render_def no_results_not_error)
  next
    case video_tool
    with reached obtain kw where kw: "video_arguments arguments = Inr kw"
      by (cases "video_arguments arguments") (simp_all add: dispatch_cached)
    show ?thesis
      using video_tool kw empty
      by (simp add: fst_handle_call_tool dispatch_cached fst_cached_search render_def no_results_not_error)
  next
    case news_tool
    with reached obtain kw where kw: "news_arguments arguments = Inr kw"
      by (cases "news_arguments arguments") (simp_all add: dispatch_cached)
    show ?thesis
      using news_tool kw empty
      by (simp add: fst_handle_call_tool dispatch_cached fst_cached_search render_def no_results_not_error)
  next
    case book_tool
    with reached obtain kw where kw: "book_arguments arguments = Inr kw"
      by (cases "book_arguments arguments") (simp_all add: dispatch_cached)
    show ?thesis
      using book_tool kw empty
      by (simp add: fst_handle_call_tool dispatch_cached fst_cached_search render_def no_results_not_error)
  next
    case unknown
    with reached show ?thesis
      by (simp add: dispatch_unknown)
  qed
qed

theorem no_results_message_witness:
  "fst (handle_call_tool (\<lambda>c k kw. Inr []) ''ddgs_image_search'' [''query'' \<mapsto> PStr ''cats''] startup) =
     [''No images found.'']
   \<and> fst (dispatch (\<lambda>c k kw. Inr []) ''ddgs_image_search'' [''query'' \<mapsto> PStr ''cats''] startup) =
     Inr [''No images found.'']
   \<and> ''No images found.'' \<notin> set (error_texts (Raised ''timeout''))"
proof -
  have c: "calls (snd (handle_call_tool (\<lambda>c k kw. Inr []) ''ddgs_image_search''
             [''query'' \<mapsto> PStr ''cats''] startup)) \<noteq> calls startup"
    by (simp add: eval_defs)
  show ?thesis
    using no_results_message [of "\<lambda>c k kw. Inr []" "''ddgs_image_search''" "[''query'' \<mapsto> PStr ''cats'']" startup] c
    by auto
qed

subsection \<open>The URL of a text result\<close>

lemma text_entry_line:
  "text_url result = Inr (PStr u) \<Longrightarrow>
   text_entry i result =
     (case py_str (dict_get result ''title'' (PStr ''No title'')) of
        Inl e \<Rightarrow> Inl e
      | Inr title \<Rightarrow>
          (case py_str (dict_get result ''body'' (PStr ''No description'')) of
             Inl e \<Rightarrow> Inl e
           | Inr body \<Rightarrow>
               Inr (string_of_nat i @ ''. '' @ title @ ''\<newline>''
                    @ ''   URL: '' @ u @ ''\<newline>''
                    @ ''   '' @ body @ ''\<newline>'')))"
  by (simp add: text_entry_def split: sum.splits)

text \<open>
  Claim C10. A text result without an \<^verbatim>\<open>href\<close> field renders the line \<^verbatim>\<open>URL: N/A\<close>
  exactly, a result whose \<^verbatim>\<open>href\<close> is the empty string renders it as it is, and the
  rewrite changes only a URL that is neither empty nor \<^verbatim>\<open>N/A\<close>. The entry is given in
  full: the title and the body are printed around the URL line, and the entry raises
  exactly when one of the two cannot be printed.
\<close>

theorem text_url_guard:
  "(result ''href'' = None \<longrightarrow>
      text_entry i result =
        (case py_str (dict_get result ''title'' (PStr ''No title'')) of
           Inl e \<Rightarrow> Inl e
         | Inr title \<Rightarrow>
             (case py_str (dict_get result ''body'' (PStr ''No description'')) of
                Inl e \<Rightarrow> Inl e
              | Inr body \<Rightarrow>
                  Inr (string_of_nat i @ ''. '' @ title @ ''\<newline>''
                       @ ''   URL: N/A\<newline>''
                       @ ''   '' @ body @ ''\<newline>''))))
   \<and> (result ''href'' = Some (PStr []) \<longrightarrow>
      text_entry i result =
        (case py_str (dict_get result ''title'' (PStr ''No title'')) of
           Inl e \<Rightarrow> Inl e
         | Inr title \<Rightarrow>
             (case py_str (dict_get result ''body'' (PStr ''No description'')) of
                Inl e \<Rightarrow> Inl e
              | Inr body \<Rightarrow>
                  Inr (string_of_nat i @ ''. '' @ title @ ''\<newline>''
                       @ ''   URL: \<newline>''
                       @ ''   '' @ body @ ''\<newline>''))))
   \<and> (\<forall>u. result ''href'' = Some (PStr u) \<and> text_url result \<noteq> Inr (PStr u) \<longrightarrow> u \<noteq> [] \<and> u \<noteq> ''N/A'')"
proof -
  have absent: "text_url result = Inr (PStr ''N/A'')" if "result ''href'' = None"
    using that by (simp add: text_url_def dict_get_def)
  have empty: "text_url result = Inr (PStr [])" if "result ''href'' = Some (PStr [])"
    using that by (simp add: text_url_def dict_get_def)
  have only: "u \<noteq> [] \<and> u \<noteq> ''N/A''"
    if "result ''href'' = Some (PStr u)" and "text_url result \<noteq> Inr (PStr u)" for u
    using that by (auto simp add: text_url_def dict_get_def)
  show ?thesis
    using text_entry_line [OF absent, of i] text_entry_line [OF empty, of i] only
    by (simp split: sum.splits)
qed

theorem text_url_guard_witness:
  "text_entry 1 [''title'' \<mapsto> PStr ''Rust''] = Inr ''1. Rust\<newline>   URL: N/A\<newline>   No description\<newline>''
   \<and> text_entry 2 [''href'' \<mapsto> PStr ''''] = Inr ''2. No title\<newline>   URL: \<newline>   No description\<newline>''
   \<and> text_url [''href'' \<mapsto> PStr ''example.com/x''] \<noteq> Inr (PStr ''example.com/x'')"
  using text_url_guard [of "[''title'' \<mapsto> PStr ''Rust'']" 1]
    text_url_guard [of "[''href'' \<mapsto> PStr '''']" 2]
    text_url_guard [of "[''href'' \<mapsto> PStr ''example.com/x'']" 1]
  by (simp add: dict_get_def string_of_nat.simps digit_char_def text_url_def startswith_def)

text \<open>
  Claim C5, as amended. For a text result whose \<^verbatim>\<open>href\<close> is a string: a URL that starts
  with \<^verbatim>\<open>http://\<close> or \<^verbatim>\<open>https://\<close> is rendered unchanged; so is the empty URL and the
  URL \<^verbatim>\<open>N/A\<close>; any other URL that starts with \<^verbatim>\<open>//\<close> is rendered with \<^verbatim>\<open>https:\<close>
  before it, and every remaining URL with \<^verbatim>\<open>https://\<close> before it.
\<close>

theorem text_url_rewrite:
  assumes "result ''href'' = Some (PStr u)"
  shows "text_entry i result =
     (case py_str (dict_get result ''title'' (PStr ''No title'')) of
        Inl e \<Rightarrow> Inl e
      | Inr title \<Rightarrow>
          (case py_str (dict_get result ''body'' (PStr ''No description'')) of
             Inl e \<Rightarrow> Inl e
           | Inr body \<Rightarrow>
               Inr (string_of_nat i @ ''. '' @ title @ ''\<newline>''
                    @ ''   URL: ''
                    @ (if startswith u ''http://'' \<or> startswith u ''https://'' then u
                       else if u = [] \<or> u = ''N/A'' then u
                       else if startswith u ''//'' then ''https:'' @ u
                       else ''https://'' @ u) @ ''\<newline>''
                    @ ''   '' @ body @ ''\<newline>'')))"
proof -
  have "text_url result =
          Inr (PStr (if startswith u ''http://'' \<or> startswith u ''https://'' then u
                     else if u = [] \<or> u = ''N/A'' then u
                     else if startswith u ''//'' then ''https:'' @ u
                     else ''https://'' @ u))"
    using assms by (auto simp add: text_url_def dict_get_def)
  then show ?thesis
    by (rule text_entry_line)
qed

theorem text_url_rewrite_witness:
  "text_entry 1 [''href'' \<mapsto> PStr ''example.com/x''] =
     Inr ''1. No title\<newline>   URL: https://example.com/x\<newline>   No description\<newline>''
   \<and> text_entry 1 [''href'' \<mapsto> PStr ''//example.com/x''] =
     Inr ''1. No title\<newline>   URL: https://example.com/x\<newline>   No description\<newline>''
   \<and> text_entry 1 [''href'' \<mapsto> PStr ''https://example.com/x''] =
     Inr ''1. No title\<newline>   URL: https://example.com/x\<newline>   No description\<newline>''"
  using text_url_rewrite [of "[''href'' \<mapsto> PStr ''example.com/x'']" "''example.com/x''" 1]
    text_url_rewrite [of "[''href'' \<mapsto> PStr ''//example.com/x'']" "''//example.com/x''" 1]
    text_url_rewrite [of "[''href'' \<mapsto> PStr ''https://example.com/x'']" "''https://example.com/x''" 1]
  by (simp add: dict_get_def string_of_nat.simps digit_char_def startswith_def)

text \<open>
  The claim as the specification states it, that every URL without a scheme and without
  a leading \<^verbatim>\<open>//\<close> gets \<^verbatim>\<open>https://\<close> in front, fails at the empty URL, which the
  guard \<^verbatim>\<open>if url and url != 'N/A'\<close> leaves alone.
\<close>

theorem text_url_rewrite_counterexample:
  "\<not> startswith '''' ''http://'' \<and> \<not> startswith '''' ''https://'' \<and> \<not> startswith '''' ''//''
   \<and> text_url [''href'' \<mapsto> PStr ''''] = Inr (PStr '''')
   \<and> text_url [''href'' \<mapsto> PStr ''''] \<noteq> Inr (PStr (''https://'' @ ''''))"
  by (simp add: text_url_def dict_get_def startswith_def)

subsection \<open>Formatting\<close>

lemma shown_get: "str_text (dict_get r key (PStr d)) = shown r key d"
  by (simp add: shown_def dict_get_def split: option.splits)

lemma printable_field:
  assumes "formattable k r" and "(key, d) \<in> set (placeholders k)"
  shows "py_str (dict_get r key (PStr d)) = Inr (shown r key d)"
proof -
  from assms have "\<not> too_long (dict_get r key (PStr d))"
    by (auto simp add: formattable_def list_all_iff)
  then show ?thesis
    by (simp add: py_str_printable shown_get)
qed

lemma text_url_shown:
  assumes "well_formed Text r"
  shows "\<exists>url. text_url r = Inr url \<and> str_text url = shown_url r
           \<and> (too_long url \<longrightarrow> too_long (dict_get r ''href'' (PStr ''N/A'')))"
proof (cases "r ''href''")
  case None
  then show ?thesis
    by (simp add: text_url_def dict_get_def shown_url_def shown_def)
next
  case (Some v)
  show ?thesis
  proof (cases v)
    case (PStr u)
    with Some show ?thesis
      by (auto simp add: text_url_def dict_get_def shown_url_def)
  qed (use Some assms in \<open>auto simp add: text_url_def dict_get_def shown_url_def shown_def is_str_def\<close>)
qed

lemma text_entry_expected:
  assumes "formattable Text r"
  shows "text_entry i r = Inr (expected_entry Text i r)"
proof -
  from assms have wf: "well_formed Text r"
    by (simp add: formattable_def)
  from text_url_shown [OF wf] obtain url where url: "text_url r = Inr url" "str_text url = shown_url r"
    "too_long url \<longrightarrow> too_long (dict_get r ''href'' (PStr ''N/A''))"
    by blast
  have "\<not> too_long (dict_get r ''href'' (PStr ''N/A''))"
    using assms by (simp add: formattable_def)
  with url have u: "py_str url = Inr (shown_url r)"
    by (auto simp add: py_str_printable)
  show ?thesis
    using printable_field [OF assms, of "''title''" "''No title''"]
      printable_field [OF assms, of "''body''" "''No description''"]
    by (simp add: text_entry_def url(1) u)
qed

lemma image_entry_expected:
  assumes "formattable Images r"
  shows "image_entry i r = Inr (expected_entry Images i r)"
  using printable_field [OF assms, of "''title''" "''No title''"]
    printable_field [OF assms, of "''image''" "''N/A''"]
    printable_field [OF assms, of "''thumbnail''" "''N/A''"]
    printable_field [OF assms, of "''url''" "''N/A''"]
    printable_field [OF assms, of "''width''" "''?''"]
    printable_field [OF assms, of "''height''" "''?''"]
  by (simp add: image_entry_def)

lemma video_entry_expected:
  assumes "formattable Videos r"
  shows "video_entry i r = Inr (expected_entry Videos i r)"
proof -
  from assms have "is_str (dict_get r ''description'' (PStr ''No description''))"
    by (simp add: formattable_def)
  then obtain s where s: "dict_get r ''description'' (PStr ''No description'') = PStr s"
    by (cases "dict_get r ''description'' (PStr ''No description'')") (simp_all add: is_str_def)
  then have "shown r ''description'' ''No description'' = s"
    using shown_get [of r "''description''" "''No description''"] by simp
  then show ?thesis
    using printable_field [OF assms, of "''title''" "''No title''"]
      printable_field [OF assms, of "''content''" "''N/A''"]
      printable_field [OF assms, of "''duration''" "''N/A''"]
      printable_field [OF assms, of "''publisher''" "''N/A''"]
      printable_field [OF assms, of "''published''" "''N/A''"]
    by (simp add: video_entry_def slice200_def s)
qed

lemma news_entry_expected:
  assumes "formattable News r"
  shows "news_entry i r = Inr (expected_entry News i r)"
  using printable_field [OF assms, of "''title''" "''No title''"]
    printable_field [OF assms, of "''source''" "''N/A''"]
    printable_field [OF assms, of "''date''" "''N/A''"]
    printable_field [OF assms, of "''url''" "''N/A''"]
    printable_field [OF assms, of "''body''" "''No description''"]
  by (simp add: news_entry_def)

lemma book_entry_expected:
  assumes "formattable Books r"
  shows "book_entry i r = Inr (expected_entry Books i r)"
  using printable_field [OF assms, of "''title''" "''No title''"]
    printable_field [OF assms, of "''author''" "''N/A''"]
    printable_field [OF assms, of "''publisher''" "''N/A''"]
    printable_field [OF assms, of "''info''" "''N/A''"]
    printable_field [OF assms, of "''url''" "''N/A''"]
  by (simp add: book_entry_def)

lemma entry_expected: "formattable k r \<Longrightarrow> entry k i r = Inr (expected_entry k i r)"
  using text_entry_expected image_entry_expected video_entry_expected news_entry_expected
    book_entry_expected
  by (cases k) simp_all

lemma format_entries_expected:
  "list_all (formattable k) rs \<Longrightarrow> format_entries (entry k) i rs = Inr (expected_entries k i rs)"
  by (induction rs arbitrary: i) (simp_all add: entry_expected)

lemma format_results_entry:
  "format_results k = render (expected_text k []) 
      (case k of Text \<Rightarrow> ''results'' | Images \<Rightarrow> ''images'' | Videos \<Rightarrow> ''videos''
       | News \<Rightarrow> ''news articles'' | Books \<Rightarrow> ''books'') (entry k)"
  by (cases k) simp_all

text \<open>
  Claim C4, as amended. For every kind and every sequence of results in which every
  field that the template reads is absent or can be printed, each text \<^verbatim>\<open>href\<close> is
  absent, false as a condition or a string, and each video \<^verbatim>\<open>description\<close> is absent or
  a string, formatting does not raise and returns one text block, and the block is the
  expected one: the no-results message for the empty sequence, and else the header and
  the numbered entries, each with its fields under their labels, where an absent field
  is rendered as its placeholder.
\<close>

theorem formatting_returns_text:
  assumes "list_all (formattable k) results"
  shows "format_results k results = Inr [expected_text k results]"
proof (cases results)
  case Nil
  then show ?thesis
    by (simp add: format_results_entry render_def)
next
  case (Cons r rs)
  have "format_entries (entry k) 1 results = Inr (expected_entries k 1 results)"
    using assms by (rule format_entries_expected)
  with Cons show ?thesis
    by (cases k) (simp_all add: render_def found_def del: format_entries.simps expected_entries.simps)
qed


theorem formatting_returns_text_witness:
  "list_all (formattable Images) [[''title'' \<mapsto> PStr ''Cat'', ''width'' \<mapsto> PInt 640, ''height'' \<mapsto> PInt 480]]
   \<and> format_results Images [[''title'' \<mapsto> PStr ''Cat'', ''width'' \<mapsto> PInt 640, ''height'' \<mapsto> PInt 480]] =
       Inr [''Found 1 images:\<newline>\<newline>1. **Cat**\<newline>   Image: N/A\<newline>   Thumbnail: N/A\<newline>   Source: N/A\<newline>   Dimensions: 640x480\<newline>'']
   \<and> list_all (formattable Videos) [[''title'' \<mapsto> PStr ''Talk'']]
   \<and> format_results Videos [[''title'' \<mapsto> PStr ''Talk'']] =
       Inr [''Found 1 videos:\<newline>\<newline>1. **Talk**\<newline>   URL: N/A\<newline>   Duration: N/A\<newline>   Publisher: N/A\<newline>   Published: N/A\<newline>   Description: No description...\<newline>'']"
proof -
  have i: "list_all (formattable Images) [[''title'' \<mapsto> PStr ''Cat'', ''width'' \<mapsto> PInt 640, ''height'' \<mapsto> PInt 480]]"
    by (simp add: formattable_def dict_get_def small_int_not_too_long)
  have v: "list_all (formattable Videos) [[''title'' \<mapsto> PStr ''Talk'']]"
    by (simp add: formattable_def dict_get_def is_str_def)
  have ei: "expected_text Images [[''title'' \<mapsto> PStr ''Cat'', ''width'' \<mapsto> PInt 640, ''height'' \<mapsto> PInt 480]] =
      ''Found 1 images:\<newline>\<newline>1. **Cat**\<newline>   Image: N/A\<newline>   Thumbnail: N/A\<newline>   Source: N/A\<newline>   Dimensions: 640x480\<newline>''"
    by (simp add: shown_def string_of_int_def string_of_nat.simps digit_char_def)
  have ev: "expected_text Videos [[''title'' \<mapsto> PStr ''Talk'']] =
      ''Found 1 videos:\<newline>\<newline>1. **Talk**\<newline>   URL: N/A\<newline>   Duration: N/A\<newline>   Publisher: N/A\<newline>   Published: N/A\<newline>   Description: No description...\<newline>''"
    by (simp add: shown_def string_of_nat.simps digit_char_def)
  show ?thesis
    using formatting_returns_text [OF i] formatting_returns_text [OF v] i v
    unfolding ei ev by simp
qed

text \<open>
  The claim as the specification states it also covers fields that are present with a
  null value. A null \<^verbatim>\<open>description\<close> of a video result raises a \<^verbatim>\<open>TypeError\<close> in the
  formatting, and a null \<^verbatim>\<open>title\<close> is rendered as the text \<^verbatim>\<open>None\<close>, not as the
  placeholder \<^verbatim>\<open>No title\<close>.
\<close>

theorem formatting_null_description_counterexample:
  "format_results Videos [[''title'' \<mapsto> PStr ''Talk'', ''description'' \<mapsto> PNone]] =
     Inl (TypeError ([CHR 0x27] @ ''NoneType'' @ [CHR 0x27] @ '' object is not subscriptable''))
   \<and> format_results News [[''title'' \<mapsto> PNone]] =
     Inr [''Found 1 news articles:\<newline>\<newline>1. **None**\<newline>   Source: N/A\<newline>   Date: N/A\<newline>   URL: N/A\<newline>   No description\<newline>'']"
  by (simp add: render_def found_def video_entry_def news_entry_def slice200_def dict_get_def
      not_subscriptable_def squote_def string_of_nat.simps digit_char_def)

subsection \<open>Normalising the arguments of a text search\<close>

lemma trailing_split: "rev (dropWhile P (rev t)) @ rev (takeWhile P (rev t)) = t"
proof -
  have "rev (takeWhile P (rev t) @ dropWhile P (rev t)) = rev (rev t)"
    by (simp only: takeWhile_dropWhile_id)
  then show ?thesis
    by (simp only: rev_append rev_rev_ident)
qed

lemma trailing_front:
  assumes "t = [] \<or> \<not> P (hd t)"
  shows "dropWhile P (rev (dropWhile P (rev t))) = rev (dropWhile P (rev t))"
proof (cases "rev (dropWhile P (rev t)) = []")
  case True
  then show ?thesis by (simp only: dropWhile.simps)
next
  case False
  have "hd (rev (dropWhile P (rev t)) @ rev (takeWhile P (rev t))) = hd (rev (dropWhile P (rev t)))"
    using False by (rule hd_append2)
  then have h: "hd (rev (dropWhile P (rev t))) = hd t"
    by (simp only: trailing_split)
  have "t \<noteq> []"
    using False by auto
  with assms have "\<not> P (hd t)" by blast
  with h have "\<not> P (hd (rev (dropWhile P (rev t))))" by simp
  then show ?thesis
    by (simp only: dropWhile_eq_self_iff) blast
qed

lemma strip_chars_front: "dropWhile (\<lambda>c. c \<in> set cs) (strip_chars cs s) = strip_chars cs s"
proof -
  have "dropWhile (\<lambda>c. c \<in> set cs) s = [] \<or> \<not> hd (dropWhile (\<lambda>c. c \<in> set cs) s) \<in> set cs"
    using hd_dropWhile [of "\<lambda>c. c \<in> set cs" s] by blast
  then show ?thesis
    unfolding strip_chars_def by (rule trailing_front)
qed

lemma strip_chars_idem: "strip_chars cs (strip_chars cs s) = strip_chars cs s"
proof -
  have "strip_chars cs (strip_chars cs s) =
          rev (dropWhile (\<lambda>c. c \<in> set cs) (rev (dropWhile (\<lambda>c. c \<in> set cs) (strip_chars cs s))))"
    by (simp only: strip_chars_def)
  also have "\<dots> = rev (dropWhile (\<lambda>c. c \<in> set cs) (rev (strip_chars cs s)))"
    by (simp only: strip_chars_front)
  also have "\<dots> = strip_chars cs s"
    unfolding strip_chars_def by (simp only: rev_rev_ident dropWhile_idem)
  finally show ?thesis .
qed

lemma strip_idem: "strip (strip s) = strip s"
  by (simp add: strip_def strip_chars_idem)

lemma clean_backend_str:
  assumes "clean_backend b0 = Inr b"
  shows "\<exists>s. b = PStr s \<and> s \<noteq> [] \<and> s \<noteq> ''auto'' \<and> strip_chars quote_chars s = s"
proof (cases "truthy b0")
  case False
  with assms have "b = PStr ''duckduckgo''"
    by (auto simp add: clean_backend_def)
  then show ?thesis
    by (simp add: strip_chars_def quote_chars_def)
next
  case True
  with assms obtain s0 where s0: "b0 = PStr s0"
    by (cases b0) (auto simp add: clean_backend_def)
  let ?s = "strip_chars quote_chars (strip s0)"
  show ?thesis
  proof (cases "?s = [] \<or> ?s = ''auto''")
    case True
    with assms s0 \<open>truthy b0\<close> have "b = PStr ''duckduckgo''"
      by (auto simp add: clean_backend_def)
    then show ?thesis
      by (simp add: strip_chars_def quote_chars_def)
  next
    case False
    with assms s0 \<open>truthy b0\<close> have "b = PStr ?s"
      by (auto simp add: clean_backend_def)
    with False show ?thesis
      by (simp add: strip_chars_idem)
  qed
qed

lemma clean_backend_fixed:
  assumes "s \<noteq> []" and "s \<noteq> ''auto''" and "strip_chars quote_chars s = s" and "strip s = s"
  shows "clean_backend (PStr s) = Inr (PStr s)"
  using assms by (simp add: clean_backend_def)

lemma clean_proxy_fixed:
  "clean_proxy (case clean_proxy p of None \<Rightarrow> PNone | Some q \<Rightarrow> PStr q) = clean_proxy p"
  by (cases p) (auto simp add: clean_proxy_def strip_idem)


lemma fstring_ok: "(\<exists>s. fstring ps = Inr s) = (\<forall>v. Fld v \<in> set ps \<longrightarrow> \<not> too_long v)"
proof (induction ps rule: fstring.induct)
  case 1
  show ?case by simp
next
  case (2 s ps)
  then show ?case by (auto split: sum.splits)
next
  case (3 v ps)
  then show ?case
    by (cases "too_long v") (auto simp add: py_str_def split: sum.splits)
qed

lemma logger_info_ok: "(logger_info ps = Inr ()) = (\<forall>v. Fld v \<in> set ps \<longrightarrow> \<not> too_long v)"
  using fstring_ok [of ps] by (auto simp add: logger_info_def split: sum.splits)

lemma logger_info_cases: "logger_info ps = Inr () \<or> (\<exists>e. logger_info ps = Inl e)"
  by (cases "logger_info ps") auto

lemma as_arguments_simps:
  "as_arguments rq ''query'' = Some (query rq)"
  "dict_get (as_arguments rq) ''region'' d = region rq"
  "dict_get (as_arguments rq) ''safesearch'' d = safesearch rq"
  "dict_get (as_arguments rq) ''timelimit'' d = timelimit rq"
  "dict_get (as_arguments rq) ''max_results'' d = max_results rq"
  "dict_get (as_arguments rq) ''backend'' d = backend rq"
  "dict_get (as_arguments rq) ''proxy'' d = (case proxy_value rq of None \<Rightarrow> PNone | Some p \<Rightarrow> PStr p)"
  by (simp_all add: as_arguments_def dict_get_def)

text \<open>
  Claim C8, as amended. Normalising the arguments of a text search (defaults, the backend
  stripped of white space and then of quotes, \<^verbatim>\<open>auto\<close> and the empty backend replaced by
  \<^verbatim>\<open>duckduckgo\<close>, a blank proxy dropped) and normalising the result again gives the same
  request, whenever the backend of the normalised request has no white space at either
  end.
\<close>

theorem normalization_idempotent:
  assumes "text_arguments arguments = Inr rq"
    and "\<forall>s. backend rq = PStr s \<longrightarrow> strip s = s"
  shows "text_arguments (as_arguments rq) = Inr rq"
proof -
  from assms(1) obtain q b where q: "arguments ''query'' = Some q"
    and logged: "logger_info [Lit (''Text search: query='' @ [CHR 0x27]), Fld q,
                             Lit (CHR 0x27 # '', region=''), Fld (dict_get arguments ''region'' (PStr ''us-en'')),
                             Lit '', max_results='', Fld (dict_get arguments ''max_results'' (PInt 10)),
                             Lit '', backend='', Fld (dict_get arguments ''backend'' (PStr ''auto''))] = Inr ()"
    and b: "clean_backend (dict_get arguments ''backend'' (PStr ''auto'')) = Inr b"
    and rq: "rq = \<lparr>query = q,
                    region = dict_get arguments ''region'' (PStr ''us-en''),
                    safesearch = dict_get arguments ''safesearch'' (PStr ''moderate''),
                    timelimit = dict_get arguments ''timelimit'' PNone,
                    max_results = dict_get arguments ''max_results'' (PInt 10),
                    backend = b,
                    proxy_value = clean_proxy (dict_get arguments ''proxy'' PNone)\<rparr>"
    by (auto simp add: text_arguments_def split: option.splits sum.splits)
  from clean_backend_str [OF b] obtain s where s: "b = PStr s" "s \<noteq> []" "s \<noteq> ''auto''"
    "strip_chars quote_chars s = s"
    by blast
  have "strip s = s"
    using assms(2) rq s(1) by simp
  then have again: "clean_backend b = Inr b"
    using s clean_backend_fixed by simp
  from logged have printable: "\<not> too_long q" "\<not> too_long (dict_get arguments ''region'' (PStr ''us-en''))"
    "\<not> too_long (dict_get arguments ''max_results'' (PInt 10))"
    by (simp_all add: logger_info_ok)
  have logged_again: "logger_info [Lit (''Text search: query='' @ [CHR 0x27]), Fld q,
                             Lit (CHR 0x27 # '', region=''), Fld (dict_get arguments ''region'' (PStr ''us-en'')),
                             Lit '', max_results='', Fld (dict_get arguments ''max_results'' (PInt 10)),
                             Lit '', backend='', Fld b] = Inr ()"
    using printable s(1) by (simp add: logger_info_ok)
  show ?thesis
    using logged_again again
    by (simp add: text_arguments_def as_arguments_simps rq clean_proxy_fixed)
qed

theorem normalization_idempotent_witness:
  "text_arguments [''query'' \<mapsto> PStr ''rust'', ''backend'' \<mapsto> PStr '' auto '', ''proxy'' \<mapsto> PStr ''  ''] =
     Inr \<lparr>query = PStr ''rust'', region = PStr ''us-en'', safesearch = PStr ''moderate'',
          timelimit = PNone, max_results = PInt 10, backend = PStr ''duckduckgo'', proxy_value = None\<rparr>
   \<and> text_arguments (as_arguments
       \<lparr>query = PStr ''rust'', region = PStr ''us-en'', safesearch = PStr ''moderate'',
        timelimit = PNone, max_results = PInt 10, backend = PStr ''duckduckgo'', proxy_value = None\<rparr>) =
     Inr \<lparr>query = PStr ''rust'', region = PStr ''us-en'', safesearch = PStr ''moderate'',
          timelimit = PNone, max_results = PInt 10, backend = PStr ''duckduckgo'', proxy_value = None\<rparr>"
proof -
  have a: "text_arguments [''query'' \<mapsto> PStr ''rust'', ''backend'' \<mapsto> PStr '' auto '', ''proxy'' \<mapsto> PStr ''  ''] =
     Inr \<lparr>query = PStr ''rust'', region = PStr ''us-en'', safesearch = PStr ''moderate'',
          timelimit = PNone, max_results = PInt 10, backend = PStr ''duckduckgo'', proxy_value = None\<rparr>"
    by (simp add: text_arguments_def logger_info_def py_str_small_int clean_backend_def clean_proxy_def dict_get_def strip_def
        strip_chars_def whitespace_def quote_chars_def)
  have s: "strip ''duckduckgo'' = ''duckduckgo''"
    by (simp add: strip_def strip_chars_def whitespace_def)
  show ?thesis
    using normalization_idempotent [OF a] a s by simp
qed

text \<open>
  Without that condition the claim fails. The backend \<^verbatim>\<open>' auto '\<close>, written with its
  quotes, is normalised to \<^verbatim>\<open> auto \<close> with the blanks kept, since the white space is
  stripped before the quotes are; normalised again it becomes \<^verbatim>\<open>duckduckgo\<close>.
\<close>

theorem normalization_idempotent_counterexample:
  "text_arguments [''query'' \<mapsto> PStr ''rust'', ''backend'' \<mapsto> PStr (CHR 0x27 # '' auto '' @ [CHR 0x27])] =
     Inr \<lparr>query = PStr ''rust'', region = PStr ''us-en'', safesearch = PStr ''moderate'',
          timelimit = PNone, max_results = PInt 10, backend = PStr '' auto '', proxy_value = None\<rparr>
   \<and> text_arguments (as_arguments
       \<lparr>query = PStr ''rust'', region = PStr ''us-en'', safesearch = PStr ''moderate'',
        timelimit = PNone, max_results = PInt 10, backend = PStr '' auto '', proxy_value = None\<rparr>) =
     Inr \<lparr>query = PStr ''rust'', region = PStr ''us-en'', safesearch = PStr ''moderate'',
          timelimit = PNone, max_results = PInt 10, backend = PStr ''duckduckgo'', proxy_value = None\<rparr>
   \<and> PStr '' auto '' \<noteq> PStr ''duckduckgo''"
  by (simp add: text_arguments_def as_arguments_def logger_info_def py_str_small_int clean_backend_def clean_proxy_def dict_get_def strip_def
      strip_chars_def whitespace_def quote_chars_def)

subsection \<open>The cached client\<close>

lemma snd_dispatch_shape:
  "snd (dispatch prov name arguments st) = st
   \<or> (\<exists>pv kw. snd (dispatch prov name arguments st) =
         st\<lparr>built := Suc (built st),
            calls := calls st @ [(\<lparr>c_id = built st, c_proxy = pv, c_timeout = 10, c_verify = True\<rparr>, Text, kw)],
            contexts := contexts st @ [Worker]\<rparr>)
   \<or> (\<exists>k kw. k \<noteq> Text \<and> ddgs_instance st = None \<and> snd (dispatch prov name arguments st) =
         st\<lparr>built := Suc (built st),
            ddgs_instance := Some \<lparr>c_id = built st, c_proxy = None, c_timeout = 10, c_verify = True\<rparr>,
            calls := calls st @ [(\<lparr>c_id = built st, c_proxy = None, c_timeout = 10, c_verify = True\<rparr>, k, kw)],
            contexts := contexts st @ [Loop]\<rparr>)
   \<or> (\<exists>k kw c. k \<noteq> Text \<and> ddgs_instance st = Some c \<and> snd (dispatch prov name arguments st) =
         st\<lparr>calls := calls st @ [(c, k, kw)], contexts := contexts st @ [Loop]\<rparr>)"
proof (cases name rule: tool_cases)
  case text_tool
  then show ?thesis
    by (cases "text_arguments arguments")
      (auto simp add: dispatch_text snd_handle_text_search snd_text_search_try)
next
  case image_tool
  then show ?thesis
    by (cases "image_arguments arguments"; cases "ddgs_instance st")
      (auto simp add: dispatch_cached snd_cached_search)
next
  case video_tool
  then show ?thesis
    by (cases "video_arguments arguments"; cases "ddgs_instance st")
      (auto simp add: dispatch_cached snd_cached_search)
next
  case news_tool
  then show ?thesis
    by (cases "news_arguments arguments"; cases "ddgs_instance st")
      (auto simp add: dispatch_cached snd_cached_search)
next
  case book_tool
  then show ?thesis
    by (cases "book_arguments arguments"; cases "ddgs_instance st")
      (auto simp add: dispatch_cached snd_cached_search)
next
  case unknown
  then show ?thesis
    by (simp add: dispatch_unknown)
qed

lemma coherent_contexts [simp]: "coherent (st\<lparr>contexts := x\<rparr>) = coherent st"
  by (simp add: coherent_def)

lemma uses_old:
  assumes "\<And>c k kw. (c, k, kw) \<in> set cs \<Longrightarrow> c_id c < n" and "c_id c = n"
  shows "uses c cs = 0"
  using assms by (fastforce simp add: uses_def filter_empty_conv)

lemma uses_snoc: "uses c (cs @ [(c', k, kw)]) = uses c cs + (if c_id c' = c_id c then 1 else 0)"
  by (simp add: uses_def)

lemma coherent_cache:
  "coherent st \<Longrightarrow> ddgs_instance st = Some c \<Longrightarrow>
     c_id c < built st \<and> c_proxy c = None \<and> (\<exists>k kw. (c, k, kw) \<in> set (calls st) \<and> k \<noteq> Text)"
  unfolding coherent_def by blast

lemma coherent_call: "coherent st \<Longrightarrow> (c, k, kw) \<in> set (calls st) \<Longrightarrow> c_id c < built st"
  unfolding coherent_def by blast

lemma coherent_private:
  "coherent st \<Longrightarrow> (c, Text, kw) \<in> set (calls st) \<Longrightarrow>
     uses c (calls st) = 1 \<and> (\<forall>c'. ddgs_instance st = Some c' \<longrightarrow> c_id c' \<noteq> c_id c)"
  unfolding coherent_def by blast

lemma coherent_shared:
  "coherent st \<Longrightarrow> (c, k, kw) \<in> set (calls st) \<Longrightarrow> k \<noteq> Text \<Longrightarrow> ddgs_instance st = Some c"
  unfolding coherent_def by blast

lemma coherentI:
  assumes "\<And>c. ddgs_instance st = Some c \<Longrightarrow>
             c_id c < built st \<and> c_proxy c = None \<and> (\<exists>k kw. (c, k, kw) \<in> set (calls st) \<and> k \<noteq> Text)"
    and "\<And>c k kw. (c, k, kw) \<in> set (calls st) \<Longrightarrow> c_id c < built st"
    and "\<And>c kw. (c, Text, kw) \<in> set (calls st) \<Longrightarrow>
             uses c (calls st) = 1 \<and> (\<forall>c'. ddgs_instance st = Some c' \<longrightarrow> c_id c' \<noteq> c_id c)"
    and "\<And>c k kw. (c, k, kw) \<in> set (calls st) \<Longrightarrow> k \<noteq> Text \<Longrightarrow> ddgs_instance st = Some c"
  shows "coherent st"
  unfolding coherent_def using assms by blast

lemma coherent_text_step:
  assumes coh: "coherent st"
  shows "coherent (st\<lparr>built := Suc (built st),
            calls := calls st @ [(\<lparr>c_id = built st, c_proxy = pv, c_timeout = 10, c_verify = True\<rparr>, Text, kw)]\<rparr>)"
    (is "coherent ?st'")
proof (rule coherentI)
  fix c assume "ddgs_instance ?st' = Some c"
  then have "ddgs_instance st = Some c" by simp
  from coherent_cache [OF coh this]
  show "c_id c < built ?st' \<and> c_proxy c = None \<and> (\<exists>k kw. (c, k, kw) \<in> set (calls ?st') \<and> k \<noteq> Text)"
    by auto
next
  fix c k kw' assume "(c, k, kw') \<in> set (calls ?st')"
  then show "c_id c < built ?st'"
    using coherent_call [OF coh, of c k kw'] by auto
next
  fix c kw' assume m: "(c, Text, kw') \<in> set (calls ?st')"
  have new: "uses \<lparr>c_id = built st, c_proxy = pv, c_timeout = 10, c_verify = True\<rparr> (calls st) = 0"
    by (rule uses_old [of "calls st" "built st"]) (use coherent_call [OF coh] in auto)
  show "uses c (calls ?st') = 1 \<and> (\<forall>c'. ddgs_instance ?st' = Some c' \<longrightarrow> c_id c' \<noteq> c_id c)"
  proof (cases "(c, Text, kw') \<in> set (calls st)")
    case True
    from coherent_call [OF coh True] have "c_id c \<noteq> built st" by simp
    with coherent_private [OF coh True] show ?thesis
      by (simp add: uses_snoc)
  next
    case False
    with m have c: "c = \<lparr>c_id = built st, c_proxy = pv, c_timeout = 10, c_verify = True\<rparr>" by auto
    have "c_id c' \<noteq> built st" if "ddgs_instance st = Some c'" for c'
      using coherent_cache [OF coh that] by simp
    with new show ?thesis
      by (simp add: uses_snoc c)
  qed
next
  fix c k kw' assume "(c, k, kw') \<in> set (calls ?st')" and "k \<noteq> Text"
  then have "(c, k, kw') \<in> set (calls st)" by auto
  from coherent_shared [OF coh this \<open>k \<noteq> Text\<close>] show "ddgs_instance ?st' = Some c" by simp
qed

lemma coherent_first_cached_step:
  assumes coh: "coherent st" and none: "ddgs_instance st = None" and k: "k \<noteq> Text"
  shows "coherent (st\<lparr>built := Suc (built st),
            ddgs_instance := Some \<lparr>c_id = built st, c_proxy = None, c_timeout = 10, c_verify = True\<rparr>,
            calls := calls st @ [(\<lparr>c_id = built st, c_proxy = None, c_timeout = 10, c_verify = True\<rparr>, k, kw)]\<rparr>)"
    (is "coherent ?st'")
proof (rule coherentI)
  fix c assume "ddgs_instance ?st' = Some c"
  then have "c = \<lparr>c_id = built st, c_proxy = None, c_timeout = 10, c_verify = True\<rparr>" by simp
  with k show "c_id c < built ?st' \<and> c_proxy c = None \<and> (\<exists>k kw. (c, k, kw) \<in> set (calls ?st') \<and> k \<noteq> Text)"
    by auto
next
  fix c k' kw' assume "(c, k', kw') \<in> set (calls ?st')"
  then show "c_id c < built ?st'"
    using coherent_call [OF coh, of c k' kw'] by auto
next
  fix c kw' assume "(c, Text, kw') \<in> set (calls ?st')"
  with k have old: "(c, Text, kw') \<in> set (calls st)" by auto
  from coherent_call [OF coh old] have "c_id c \<noteq> built st" by simp
  with coherent_private [OF coh old]
  show "uses c (calls ?st') = 1 \<and> (\<forall>c'. ddgs_instance ?st' = Some c' \<longrightarrow> c_id c' \<noteq> c_id c)"
    by (auto simp add: uses_snoc)
next
  fix c k' kw' assume m: "(c, k', kw') \<in> set (calls ?st')" and k': "k' \<noteq> Text"
  have "(c, k', kw') \<notin> set (calls st)"
    using coherent_shared [OF coh _ k', of c kw'] none by auto
  with m show "ddgs_instance ?st' = Some c" by auto
qed

lemma coherent_cached_step:
  assumes coh: "coherent st" and some: "ddgs_instance st = Some c0" and k: "k \<noteq> Text"
  shows "coherent (st\<lparr>calls := calls st @ [(c0, k, kw)]\<rparr>)" (is "coherent ?st'")
proof (rule coherentI)
  fix c assume "ddgs_instance ?st' = Some c"
  then have "ddgs_instance st = Some c" by simp
  from coherent_cache [OF coh this]
  show "c_id c < built ?st' \<and> c_proxy c = None \<and> (\<exists>k kw. (c, k, kw) \<in> set (calls ?st') \<and> k \<noteq> Text)"
    by auto
next
  fix c k' kw' assume "(c, k', kw') \<in> set (calls ?st')"
  then show "c_id c < built ?st'"
    using coherent_call [OF coh, of c k' kw'] coherent_cache [OF coh some] by auto
next
  fix c kw' assume "(c, Text, kw') \<in> set (calls ?st')"
  with k have old: "(c, Text, kw') \<in> set (calls st)" by auto
  from coherent_private [OF coh old] some
  show "uses c (calls ?st') = 1 \<and> (\<forall>c'. ddgs_instance ?st' = Some c' \<longrightarrow> c_id c' \<noteq> c_id c)"
    by (auto simp add: uses_snoc)
next
  fix c k' kw' assume "(c, k', kw') \<in> set (calls ?st')" and "k' \<noteq> Text"
  then show "ddgs_instance ?st' = Some c"
    using coherent_shared [OF coh, of c k' kw'] some by auto
qed

lemma coherent_startup: "coherent startup"
  by (simp add: coherent_def startup_def)

lemma coherent_handle_call_tool:
  assumes "coherent st"
  shows "coherent (snd (handle_call_tool prov name arguments st))"
  using snd_dispatch_shape [of prov name arguments st] assms
    coherent_text_step [OF assms] coherent_first_cached_step [OF assms] coherent_cached_step [OF assms]
  by (auto simp add: snd_handle_call_tool)

lemma cache_kept_handle_call_tool:
  assumes "ddgs_instance st = Some c"
  shows "ddgs_instance (snd (handle_call_tool prov name arguments st)) = Some c"
  using snd_dispatch_shape [of prov name arguments st] assms
  by (auto simp add: snd_handle_call_tool)

lemma snd_serve_Cons:
  "snd (serve ((prov, name, arguments) # rest) st) = snd (serve rest (snd (handle_call_tool prov name arguments st)))"
  by (simp split: prod.splits)

lemma coherent_serve: "coherent st \<Longrightarrow> coherent (snd (serve invocations st))"
proof (induction invocations arbitrary: st)
  case Nil
  then show ?case by simp
next
  case (Cons inv invocations)
  obtain prov name arguments where inv: "inv = (prov, name, arguments)"
    by (cases inv)
  show ?case
    unfolding inv snd_serve_Cons
    by (rule Cons.IH) (rule coherent_handle_call_tool [OF Cons.prems])
qed

lemma cache_kept_serve:
  "ddgs_instance st = Some c \<Longrightarrow> ddgs_instance (snd (serve invocations st)) = Some c"
proof (induction invocations arbitrary: st)
  case Nil
  then show ?case by simp
next
  case (Cons inv invocations)
  obtain prov name arguments where inv: "inv = (prov, name, arguments)"
    by (cases inv)
  show ?case
    unfolding inv snd_serve_Cons
    by (rule Cons.IH) (rule cache_kept_handle_call_tool [OF Cons.prems])
qed

lemma snd_serve_append: "snd (serve (pre @ post) st) = snd (serve post (snd (serve pre st)))"
proof (induction pre arbitrary: st)
  case Nil
  show ?case by simp
next
  case (Cons inv pre)
  obtain prov name arguments where inv: "inv = (prov, name, arguments)"
    by (cases inv)
  show ?case
    unfolding inv append_Cons snd_serve_Cons by (rule Cons.IH)
qed

text \<open>
  Claim C2, as amended. After any sequence of invocations served from the start: every
  call of an image, video, news or book search used the one client that is cached, and
  that client has no proxy; every call of a text search, with or without a proxy, used
  a client that is not the cached one and that no other call used; a client, once
  cached, stays the cached one to the end of the sequence; and the cache is empty exactly
  as long as no image, video, news or book search has called the provider.
\<close>

theorem client_caching:
  assumes st: "st = snd (serve invocations startup)"
  shows "(\<forall>c k kw. (c, k, kw) \<in> set (calls st) \<and> k \<noteq> Text \<longrightarrow> ddgs_instance st = Some c \<and> c_proxy c = None)
    \<and> (\<forall>c kw. (c, Text, kw) \<in> set (calls st) \<longrightarrow> ddgs_instance st \<noteq> Some c \<and> uses c (calls st) = 1)
    \<and> (\<forall>pre post c. invocations = pre @ post \<and> ddgs_instance (snd (serve pre startup)) = Some c \<longrightarrow>
          ddgs_instance st = Some c)
    \<and> ((ddgs_instance st = None) = (\<forall>c k kw. (c, k, kw) \<in> set (calls st) \<longrightarrow> k = Text))"
proof -
  have coh: "coherent st"
    unfolding st by (rule coherent_serve) (rule coherent_startup)
  have sh: "ddgs_instance st = Some c \<and> c_proxy c = None"
    if "(c, k, kw) \<in> set (calls st)" and "k \<noteq> Text" for c k kw
    using coherent_shared [OF coh that] coherent_cache [OF coh] by blast
  have own: "ddgs_instance st \<noteq> Some c \<and> uses c (calls st) = 1"
    if "(c, Text, kw) \<in> set (calls st)" for c kw
    using coherent_private [OF coh that] by blast
  have kept: "ddgs_instance st = Some c"
    if "invocations = pre @ post" and "ddgs_instance (snd (serve pre startup)) = Some c" for pre post c
    unfolding st that(1) snd_serve_append by (rule cache_kept_serve) (rule that(2))
  have lazy: "(ddgs_instance st = None) = (\<forall>c k kw. (c, k, kw) \<in> set (calls st) \<longrightarrow> k = Text)"
  proof
    assume "ddgs_instance st = None"
    then show "\<forall>c k kw. (c, k, kw) \<in> set (calls st) \<longrightarrow> k = Text"
      using sh by fastforce
  next
    assume text_only: "\<forall>c k kw. (c, k, kw) \<in> set (calls st) \<longrightarrow> k = Text"
    show "ddgs_instance st = None"
    proof (cases "ddgs_instance st")
      case None
      then show ?thesis .
    next
      case (Some c)
      from coherent_cache [OF coh Some] text_only show ?thesis by blast
    qed
  qed
  from sh own kept lazy show ?thesis by blast
qed

theorem client_caching_witness:
  "(\<lparr>c_id = 0, c_proxy = None, c_timeout = 10, c_verify = True\<rparr>, News,
      [(''query'', PStr ''go''), (''region'', PStr ''us-en''), (''safesearch'', PStr ''moderate''),
       (''timelimit'', PNone), (''max_results'', PInt 10), (''backend'', PStr ''auto'')])
     \<in> set (calls (snd (serve
         [(\<lambda>c k kw. Inr [], ''ddgs_image_search'', [''query'' \<mapsto> PStr ''cats'']),
          (\<lambda>c k kw. Inr [], ''ddgs_text_search'', [''query'' \<mapsto> PStr ''rust'', ''proxy'' \<mapsto> PStr ''socks5://127.0.0.1:9050'']),
          (\<lambda>c k kw. Inr [], ''ddgs_news_search'', [''query'' \<mapsto> PStr ''go''])] startup)))
   \<and> ddgs_instance (snd (serve
         [(\<lambda>c k kw. Inr [], ''ddgs_image_search'', [''query'' \<mapsto> PStr ''cats'']),
          (\<lambda>c k kw. Inr [], ''ddgs_text_search'', [''query'' \<mapsto> PStr ''rust'', ''proxy'' \<mapsto> PStr ''socks5://127.0.0.1:9050'']),
          (\<lambda>c k kw. Inr [], ''ddgs_news_search'', [''query'' \<mapsto> PStr ''go''])] startup))
       = Some \<lparr>c_id = 0, c_proxy = None, c_timeout = 10, c_verify = True\<rparr>"
proof -
  let ?invs = "[(\<lambda>c k kw. Inr [], ''ddgs_image_search'', [''query'' \<mapsto> PStr ''cats'']),
          (\<lambda>c k kw. Inr [], ''ddgs_text_search'', [''query'' \<mapsto> PStr ''rust'', ''proxy'' \<mapsto> PStr ''socks5://127.0.0.1:9050'']),
          (\<lambda>c k kw. Inr [], ''ddgs_news_search'', [''query'' \<mapsto> PStr ''go''])]"
  have m: "(\<lparr>c_id = 0, c_proxy = None, c_timeout = 10, c_verify = True\<rparr>, News,
      [(''query'', PStr ''go''), (''region'', PStr ''us-en''), (''safesearch'', PStr ''moderate''),
       (''timelimit'', PNone), (''max_results'', PInt 10), (''backend'', PStr ''auto'')])
     \<in> set (calls (snd (serve ?invs startup)))"
    by (simp add: eval_defs)
  show ?thesis
    using client_caching [of "snd (serve ?invs startup)" ?invs] m by blast
qed

text \<open>
  The specification says that the first request without a proxy builds the shared client
  and that every later one reuses it. Two text searches without a proxy leave the cache
  empty and use two clients.
\<close>


theorem client_cache_counterexample:
  "ddgs_instance (snd (serve [(\<lambda>c k kw. Inr [], ''ddgs_text_search'', [''query'' \<mapsto> PStr ''rust'']),
                              (\<lambda>c k kw. Inr [], ''ddgs_text_search'', [''query'' \<mapsto> PStr ''go''])] startup)) = None
   \<and> map fst (calls (snd (serve [(\<lambda>c k kw. Inr [], ''ddgs_text_search'', [''query'' \<mapsto> PStr ''rust'']),
                              (\<lambda>c k kw. Inr [], ''ddgs_text_search'', [''query'' \<mapsto> PStr ''go''])] startup))) =
       [\<lparr>c_id = 0, c_proxy = None, c_timeout = 10, c_verify = True\<rparr>,
        \<lparr>c_id = 1, c_proxy = None, c_timeout = 10, c_verify = True\<rparr>]"
  by (simp add: eval_defs)

subsection \<open>The result cap\<close>

text \<open>
  Facts about the validation against the declared schemas. Every listed tool declares
  \<^verbatim>\<open>max_results\<close> as an integer between 1 and 100 and requires \<^verbatim>\<open>query\<close> alone.
\<close>


lemma validate_property:
  assumes "(key, p) \<in> set (s_properties schema)" and "arguments key = Some v"
  shows "set (check_property key p v) \<subseteq> set (validate schema arguments)"
  using assms by (fastforce simp add: validate_def)

lemma validate_required:
  assumes "key \<in> set (s_required schema)" and "arguments key = None"
  shows "\<lparr>parameter = key, violated = Missing\<rparr> \<in> set (validate schema arguments)"
  using assms by (simp add: validate_def)

lemma check_property_parameter: "e \<in> set (check_property key p v) \<Longrightarrow> parameter e = key"
  by (auto simp add: check_property_def split: option.splits pyval.splits if_splits)

lemma validate_member:
  assumes "e \<in> set (validate schema arguments)"
  shows "(\<exists>key p v. (key, p) \<in> set (s_properties schema) \<and> arguments key = Some v
            \<and> e \<in> set (check_property key p v))
         \<or> (\<exists>key. key \<in> set (s_required schema) \<and> e = \<lparr>parameter = key, violated = Missing\<rparr>)"
proof -
  from assms have "e \<in> set (concat (map (\<lambda>(key, p). case arguments key of None \<Rightarrow> [] | Some v \<Rightarrow> check_property key p v)
               (s_properties schema)))
      \<or> e \<in> set (map (\<lambda>key. \<lparr>parameter = key, violated = Missing\<rparr>)
         (filter (\<lambda>key. arguments key = None) (s_required schema)))"
    by (simp add: validate_def)
  then show ?thesis
  proof
    assume "e \<in> set (concat (map (\<lambda>(key, p). case arguments key of None \<Rightarrow> [] | Some v \<Rightarrow> check_property key p v)
               (s_properties schema)))"
    then obtain key p where kp: "(key, p) \<in> set (s_properties schema)"
      and e: "e \<in> set (case arguments key of None \<Rightarrow> [] | Some v \<Rightarrow> check_property key p v)"
      by auto
    then obtain v where "arguments key = Some v" "e \<in> set (check_property key p v)"
      by (cases "arguments key") simp_all
    with kp show ?thesis by blast
  next
    assume "e \<in> set (map (\<lambda>key. \<lparr>parameter = key, violated = Missing\<rparr>)
         (filter (\<lambda>key. arguments key = None) (s_required schema)))"
    then show ?thesis by auto
  qed
qed

lemma validate_parameter:
  assumes "e \<in> set (validate schema arguments)"
  shows "(\<exists>p v. (parameter e, p) \<in> set (s_properties schema) \<and> arguments (parameter e) = Some v
            \<and> e \<in> set (check_property (parameter e) p v))
         \<or> (parameter e \<in> set (s_required schema) \<and> violated e = Missing)"
  using validate_member [OF assms] check_property_parameter by fastforce

lemma check_integer:
  "check_property key (integer_property lo hi) (PInt n) =
     (if n < lo then [\<lparr>parameter = key, violated = BelowMinimum lo\<rparr>] else [])
     @ (if hi < n then [\<lparr>parameter = key, violated = AboveMaximum hi\<rparr>] else [])"
  by (simp add: check_property_def integer_property_def)

lemma check_not_integer:
  "\<forall>n. v \<noteq> PInt n \<Longrightarrow>
     \<lparr>parameter = key, violated = WrongType JInteger\<rparr> \<in> set (check_property key (integer_property lo hi) v)"
  by (cases v) (simp_all add: check_property_def integer_property_def)

lemma check_string: "check_property key string_property v = [] \<Longrightarrow> is_str v"
  by (cases v) (simp_all add: check_property_def string_property_def is_str_def)

lemma listed_cases:
  assumes "map_of handle_list_tools name = Some schema"
  obtains (text_tool) "name = ''ddgs_text_search''" "schema = snd (handle_list_tools ! 0)"
    | (image_tool) "name = ''ddgs_image_search''" "schema = snd (handle_list_tools ! 1)"
    | (video_tool) "name = ''ddgs_video_search''" "schema = snd (handle_list_tools ! 2)"
    | (news_tool) "name = ''ddgs_news_search''" "schema = snd (handle_list_tools ! 3)"
    | (book_tool) "name = ''ddgs_book_search''" "schema = snd (handle_list_tools ! 4)"
  using assms by (auto simp add: handle_list_tools_def split: if_splits)

lemma listed_names: "map fst handle_list_tools = tool_names"
  by (simp add: handle_list_tools_def tool_names_def)

lemma listed_max_results:
  assumes "map_of handle_list_tools name = Some schema"
  shows "(''max_results'', integer_property 1 100) \<in> set (s_properties schema)
     \<and> (\<forall>p. (''max_results'', p) \<in> set (s_properties schema) \<longrightarrow> p = integer_property 1 100)
     \<and> s_required schema = [''query'']
     \<and> (''query'', string_property) \<in> set (s_properties schema)"
  using assms by (cases rule: listed_cases) (auto simp add: handle_list_tools_def)


lemma valid_property:
  assumes "validate schema arguments = []" and "(key, p) \<in> set (s_properties schema)"
    and "arguments key = Some v"
  shows "check_property key p v = []"
  using validate_property [of key p schema arguments v] assms by simp

lemma valid_string:
  assumes "validate schema arguments = []" and "(key, string_property) \<in> set (s_properties schema)"
  shows "is_str (dict_get arguments key (PStr d))"
proof (cases "arguments key")
  case None
  then show ?thesis by (simp add: dict_get_def is_str_def)
next
  case (Some v)
  from check_string [OF valid_property [OF assms Some]] Some show ?thesis
    by (simp add: dict_get_def)
qed

lemma is_str_printable: "is_str v \<Longrightarrow> \<not> too_long v"
  by (cases v) (simp_all add: is_str_def)

lemma valid_query:
  assumes listed: "map_of handle_list_tools name = Some schema" and valid: "validate schema arguments = []"
  shows "\<exists>s. arguments ''query'' = Some (PStr s)"
proof (cases "arguments ''query''")
  case None
  from listed_max_results [OF listed] have "''query'' \<in> set (s_required schema)" by simp
  with validate_required [of "''query''" schema arguments] None valid show ?thesis by simp
next
  case (Some q)
  from listed_max_results [OF listed] have "(''query'', string_property) \<in> set (s_properties schema)"
    by simp
  from check_string [OF valid_property [OF valid this Some]] Some show ?thesis
    by (cases q) (simp_all add: is_str_def)
qed

lemma valid_max_results:
  assumes listed: "map_of handle_list_tools name = Some schema" and valid: "validate schema arguments = []"
  shows "\<exists>n. dict_get arguments ''max_results'' (PInt 10) = PInt n \<and> 1 \<le> n \<and> n \<le> 100"
proof (cases "arguments ''max_results''")
  case None
  then show ?thesis by (simp add: dict_get_def)
next
  case (Some v)
  from listed_max_results [OF listed]
  have "(''max_results'', integer_property 1 100) \<in> set (s_properties schema)" by simp
  from valid_property [OF valid this Some] have c: "check_property ''max_results'' (integer_property 1 100) v = []" .
  show ?thesis
  proof (cases v)
    case (PInt n)
    with c have "1 \<le> n \<and> n \<le> 100"
      by (simp add: check_integer split: if_splits)
    with PInt Some show ?thesis by (simp add: dict_get_def)
  qed (use c check_not_integer [of v "''max_results''" 1 100] in auto)
qed

lemma valid_max_results_printable:
  assumes "map_of handle_list_tools name = Some schema" and "validate schema arguments = []"
  shows "\<not> too_long (dict_get arguments ''max_results'' (PInt 10))"
proof -
  from valid_max_results [OF assms] obtain n
    where "dict_get arguments ''max_results'' (PInt 10) = PInt n" "1 \<le> n" "n \<le> 100"
    by blast
  then show ?thesis
    using small_int_not_too_long [of n] by simp
qed

lemma clean_backend_string: "is_str v \<Longrightarrow> \<exists>b. clean_backend v = Inr b"
  by (cases v) (simp_all add: is_str_def clean_backend_def)

lemma valid_reaches:
  assumes listed: "map_of handle_list_tools name = Some schema" and valid: "validate schema arguments = []"
  shows "\<exists>c k kw. calls (snd (dispatch prov name arguments st)) = calls st @ [(c, k, kw)]
           \<and> map_of kw ''max_results'' = Some (dict_get arguments ''max_results'' (PInt 10))"
proof -
  from valid_query [OF listed valid] obtain s where q: "arguments ''query'' = Some (PStr s)"
    by blast
  note m = valid_max_results_printable [OF listed valid]
  from listed show ?thesis
  proof (cases rule: listed_cases)
    case text_tool
    have "(''region'', string_property) \<in> set (s_properties schema)"
      and "(''backend'', string_property) \<in> set (s_properties schema)"
      using text_tool(2) by (simp_all add: handle_list_tools_def)
    then have r: "is_str (dict_get arguments ''region'' (PStr ''us-en''))"
      and b: "is_str (dict_get arguments ''backend'' (PStr ''auto''))"
      using valid_string [OF valid] by blast+
    from clean_backend_string [OF b] obtain b' where
      "clean_backend (dict_get arguments ''backend'' (PStr ''auto'')) = Inr b'"
      by blast
    moreover have "logger_info [Lit (''Text search: query='' @ [CHR 0x27]), Fld (PStr s),
                             Lit (CHR 0x27 # '', region=''), Fld (dict_get arguments ''region'' (PStr ''us-en'')),
                             Lit '', max_results='', Fld (dict_get arguments ''max_results'' (PInt 10)),
                             Lit '', backend='', Fld (dict_get arguments ''backend'' (PStr ''auto''))] = Inr ()"
      using m is_str_printable [OF r] is_str_printable [OF b] by (simp add: logger_info_ok)
    ultimately obtain rq where "text_arguments arguments = Inr rq"
      and "max_results rq = dict_get arguments ''max_results'' (PInt 10)"
      using q by (simp add: text_arguments_def)
    then show ?thesis
      using text_tool(1)
      by (simp add: dispatch_text snd_handle_text_search calls_text_search_try text_kwargs_def)
  next
    case image_tool
    have "logger_info [Lit (''Image search: query='' @ [CHR 0x27]), Fld (PStr s),
                       Lit (CHR 0x27 # '', max_results=''), Fld (dict_get arguments ''max_results'' (PInt 10))] = Inr ()"
      using m by (simp add: logger_info_ok)
    then show ?thesis
      using image_tool(1) q
      by (simp add: dispatch_cached image_arguments_def calls_cached_search)
  next
    case video_tool
    have "logger_info [Lit (''Video search: query='' @ [CHR 0x27]), Fld (PStr s),
                       Lit (CHR 0x27 # '', max_results=''), Fld (dict_get arguments ''max_results'' (PInt 10))] = Inr ()"
      using m by (simp add: logger_info_ok)
    then show ?thesis
      using video_tool(1) q
      by (simp add: dispatch_cached video_arguments_def calls_cached_search)
  next
    case news_tool
    have "logger_info [Lit (''News search: query='' @ [CHR 0x27]), Fld (PStr s),
                       Lit (CHR 0x27 # '', max_results=''), Fld (dict_get arguments ''max_results'' (PInt 10))] = Inr ()"
      using m by (simp add: logger_info_ok)
    then show ?thesis
      using news_tool(1) q
      by (simp add: dispatch_cached news_arguments_def calls_cached_search)
  next
    case book_tool
    have "logger_info [Lit (''Book search: query='' @ [CHR 0x27]), Fld (PStr s),
                       Lit (CHR 0x27 # '', max_results=''), Fld (dict_get arguments ''max_results'' (PInt 10))] = Inr ()"
      using m by (simp add: logger_info_ok)
    then show ?thesis
      using book_tool(1) q
      by (simp add: dispatch_cached book_arguments_def calls_cached_search)
  qed
qed


lemma call_tool_rejects:
  assumes "map_of handle_list_tools name = Some schema" and "e \<in> set (validate schema arguments)"
  shows "call_tool message prov name arguments st = ([message (validate schema arguments)], st)"
  using assms by (cases "validate schema arguments") (simp_all add: call_tool_def)

lemma call_tool_accepts:
  assumes "map_of handle_list_tools name = Some schema" and "validate schema arguments = []"
  shows "call_tool message prov name arguments st = handle_call_tool prov name arguments st"
  using assms by (simp add: call_tool_def)

text \<open>
  Claim C1. At the served entry of a listed tool, an integer \<^verbatim>\<open>max_results\<close> below 1 or
  above 100 gives a validation error that names the parameter \<^verbatim>\<open>max_results\<close> and the bound
  it violates; the response is the one text made from the validation errors and the
  state is the one before, so the provider is not called. A \<^verbatim>\<open>max_results\<close> that is not an
  integer is refused in the same way. An integer from 1 to 100 gives no validation error
  on \<^verbatim>\<open>max_results\<close>, and when no other argument is refused either the invocation runs
  \<^verbatim>\<open>handle_call_tool\<close>, which calls the provider once with that very value of
  \<^verbatim>\<open>max_results\<close>.
\<close>

theorem max_results_validated:
  assumes listed: "map_of handle_list_tools name = Some schema"
  shows
    "(\<forall>n. arguments ''max_results'' = Some (PInt n) \<and> (n < 1 \<or> 100 < n) \<longrightarrow>
        \<lparr>parameter = ''max_results'', violated = (if n < 1 then BelowMinimum 1 else AboveMaximum 100)\<rparr>
          \<in> set (validate schema arguments)
        \<and> call_tool message prov name arguments st = ([message (validate schema arguments)], st))
     \<and> (\<forall>v. arguments ''max_results'' = Some v \<and> (\<forall>n. v \<noteq> PInt n) \<longrightarrow>
        \<lparr>parameter = ''max_results'', violated = WrongType JInteger\<rparr> \<in> set (validate schema arguments)
        \<and> call_tool message prov name arguments st = ([message (validate schema arguments)], st))
     \<and> (\<forall>n. arguments ''max_results'' = Some (PInt n) \<and> 1 \<le> n \<and> n \<le> 100 \<longrightarrow>
        (\<forall>e \<in> set (validate schema arguments). parameter e \<noteq> ''max_results'')
        \<and> (validate schema arguments = [] \<longrightarrow>
             call_tool message prov name arguments st = handle_call_tool prov name arguments st
             \<and> (\<exists>c k kw. calls (snd (call_tool message prov name arguments st)) = calls st @ [(c, k, kw)]
                   \<and> map_of kw ''max_results'' = Some (PInt n))))"
proof -
  note schema = listed_max_results [OF listed]
  have declared: "(''max_results'', integer_property 1 100) \<in> set (s_properties schema)"
    using schema by simp
  have outside: "\<lparr>parameter = ''max_results'', violated = (if n < 1 then BelowMinimum 1 else AboveMaximum 100)\<rparr>
          \<in> set (validate schema arguments)
        \<and> call_tool message prov name arguments st = ([message (validate schema arguments)], st)"
    if "arguments ''max_results'' = Some (PInt n)" and "n < 1 \<or> 100 < n" for n
  proof -
    have "\<lparr>parameter = ''max_results'', violated = (if n < 1 then BelowMinimum 1 else AboveMaximum 100)\<rparr>
            \<in> set (check_property ''max_results'' (integer_property 1 100) (PInt n))"
      using that(2) by (auto simp add: check_integer)
    with validate_property [of "''max_results''" "integer_property 1 100" schema arguments "PInt n"]
      declared that(1)
    have "\<lparr>parameter = ''max_results'', violated = (if n < 1 then BelowMinimum 1 else AboveMaximum 100)\<rparr>
            \<in> set (validate schema arguments)"
      by blast
    with call_tool_rejects [OF listed this] show ?thesis by blast
  qed
  have mistyped: "\<lparr>parameter = ''max_results'', violated = WrongType JInteger\<rparr> \<in> set (validate schema arguments)
        \<and> call_tool message prov name arguments st = ([message (validate schema arguments)], st)"
    if "arguments ''max_results'' = Some v" and "\<forall>n. v \<noteq> PInt n" for v
  proof -
    from check_not_integer [OF that(2), of "''max_results''" 1 100]
      validate_property [of "''max_results''" "integer_property 1 100" schema arguments v]
      declared that(1)
    have "\<lparr>parameter = ''max_results'', violated = WrongType JInteger\<rparr> \<in> set (validate schema arguments)"
      by blast
    with call_tool_rejects [OF listed this] show ?thesis by blast
  qed
  have inside: "(\<forall>e \<in> set (validate schema arguments). parameter e \<noteq> ''max_results'')
        \<and> (validate schema arguments = [] \<longrightarrow>
             call_tool message prov name arguments st = handle_call_tool prov name arguments st
             \<and> (\<exists>c k kw. calls (snd (call_tool message prov name arguments st)) = calls st @ [(c, k, kw)]
                   \<and> map_of kw ''max_results'' = Some (PInt n)))"
    if m: "arguments ''max_results'' = Some (PInt n)" and "1 \<le> n" and "n \<le> 100" for n
  proof -
    have "parameter e \<noteq> ''max_results''" if e: "e \<in> set (validate schema arguments)" for e
    proof
      assume p: "parameter e = ''max_results''"
      from validate_parameter [OF e] show False
      proof
        assume "\<exists>p v. (parameter e, p) \<in> set (s_properties schema) \<and> arguments (parameter e) = Some v
            \<and> e \<in> set (check_property (parameter e) p v)"
        then obtain q where "(''max_results'', q) \<in> set (s_properties schema)"
          and "e \<in> set (check_property ''max_results'' q (PInt n))"
          using p m by auto
        moreover from this(1) schema have "q = integer_property 1 100" by blast
        ultimately show False
          using \<open>1 \<le> n\<close> \<open>n \<le> 100\<close> by (simp add: check_integer)
      next
        assume "parameter e \<in> set (s_required schema) \<and> violated e = Missing"
        with p schema show False by simp
      qed
    qed
    moreover have "call_tool message prov name arguments st = handle_call_tool prov name arguments st
             \<and> (\<exists>c k kw. calls (snd (call_tool message prov name arguments st)) = calls st @ [(c, k, kw)]
                   \<and> map_of kw ''max_results'' = Some (PInt n))"
      if valid: "validate schema arguments = []"
      using valid_reaches [OF listed valid, of prov st] call_tool_accepts [OF listed valid, of message prov st] m
      by (simp add: snd_handle_call_tool dict_get_def)
    ultimately show ?thesis by blast
  qed
  from outside mistyped inside show ?thesis by blast
qed

text \<open>
  The text search with \<^verbatim>\<open>max_results\<close> 500 is refused with the state untouched, and with
  \<^verbatim>\<open>max_results\<close> 2 it reaches the provider with 2.
\<close>

theorem max_results_validated_witness:
  "map_of handle_list_tools ''ddgs_text_search'' = Some (snd (hd handle_list_tools))
   \<and> validate (snd (hd handle_list_tools)) [''query'' \<mapsto> PStr ''rust'', ''max_results'' \<mapsto> PInt 500] =
       [\<lparr>parameter = ''max_results'', violated = AboveMaximum 100\<rparr>]
   \<and> call_tool (\<lambda>es. ''invalid arguments'') (\<lambda>c k kw. Inr []) ''ddgs_text_search''
        [''query'' \<mapsto> PStr ''rust'', ''max_results'' \<mapsto> PInt 500] startup =
       ([''invalid arguments''], startup)
   \<and> validate (snd (hd handle_list_tools)) [''query'' \<mapsto> PStr ''rust'', ''max_results'' \<mapsto> PInt 2] = []
   \<and> (\<exists>c k kw. calls (snd (call_tool (\<lambda>es. ''invalid arguments'') (\<lambda>c k kw. Inr []) ''ddgs_text_search''
        [''query'' \<mapsto> PStr ''rust'', ''max_results'' \<mapsto> PInt 2] startup)) = calls startup @ [(c, k, kw)]
          \<and> map_of kw ''max_results'' = Some (PInt 2))"
proof -
  have listed: "map_of handle_list_tools ''ddgs_text_search'' = Some (snd (hd handle_list_tools))"
    by (simp add: handle_list_tools_def)
  have rejected: "validate (snd (hd handle_list_tools)) [''query'' \<mapsto> PStr ''rust'', ''max_results'' \<mapsto> PInt 500] =
       [\<lparr>parameter = ''max_results'', violated = AboveMaximum 100\<rparr>]"
    by (simp add: handle_list_tools_def validate_def check_property_def string_property_def
        enum_property_def integer_property_def)
  have accepted: "validate (snd (hd handle_list_tools)) [''query'' \<mapsto> PStr ''rust'', ''max_results'' \<mapsto> PInt 2] = []"
    by (simp add: handle_list_tools_def validate_def check_property_def string_property_def
        enum_property_def integer_property_def)
  show ?thesis
    using max_results_validated [OF listed, of "[''query'' \<mapsto> PStr ''rust'', ''max_results'' \<mapsto> PInt 500]"
        "\<lambda>es. ''invalid arguments''" "\<lambda>c k kw. Inr []" startup]
      max_results_validated [OF listed, of "[''query'' \<mapsto> PStr ''rust'', ''max_results'' \<mapsto> PInt 2]"
        "\<lambda>es. ''invalid arguments''" "\<lambda>c k kw. Inr []" startup]
      listed rejected accepted
    by auto
qed

end
